theory Spec2Isabelle
  imports Complex_Main "HOL-Library.Word" "HOL-Library.Log_Nat" "HOL-Library.AList"
begin

section \<open>The GATT Current Time server (gatt-cts-server.py)\<close>

text \<open>
  A shallow embedding of the Python program. Objects are records or datatype values,
  a method takes the object and returns what the call gives back, the object after
  the call and the effects the call had on the outside (log records, signals), in
  the order in which they happen. An exception is a value \<open>Inl e\<close>.
\<close>

subsection \<open>Interface names\<close>

definition BLUEZ_SERVICE_NAME :: string where
  "BLUEZ_SERVICE_NAME = ''org.bluez''"

definition GATT_MANAGER_IFACE :: string where
  "GATT_MANAGER_IFACE = ''org.bluez.GattManager1''"

definition DBUS_OM_IFACE :: string where
  "DBUS_OM_IFACE = ''org.freedesktop.DBus.ObjectManager''"

definition DBUS_PROP_IFACE :: string where
  "DBUS_PROP_IFACE = ''org.freedesktop.DBus.Properties''"

definition GATT_SERVICE_IFACE :: string where
  "GATT_SERVICE_IFACE = ''org.bluez.GattService1''"

definition GATT_CHRC_IFACE :: string where
  "GATT_CHRC_IFACE = ''org.bluez.GattCharacteristic1''"

definition GATT_DESC_IFACE :: string where
  "GATT_DESC_IFACE = ''org.bluez.GattDescriptor1''"

subsection \<open>Exceptions\<close>

text \<open>
  The five exception classes the program declares (each a DBusException with its own
  error name), and the built-in Python exceptions that the modelled code can raise.
\<close>

datatype error =
    InvalidArgsException
  | NotSupportedException
  | NotPermittedException
  | InvalidValueLengthException
  | FailedException
  | KeyError
  | ValueError
  | OverflowError
  | AttributeError
  | IndexError
  | ZeroDivisionError

fun declared_error :: "error \<Rightarrow> bool" where
  "declared_error InvalidArgsException = True"
| "declared_error NotSupportedException = True"
| "declared_error NotPermittedException = True"
| "declared_error InvalidValueLengthException = True"
| "declared_error FailedException = True"
| "declared_error _ = False"

definition bind_err :: "error + 'a \<Rightarrow> ('a \<Rightarrow> error + 'b) \<Rightarrow> error + 'b" where
  "bind_err r f = (case r of Inl e \<Rightarrow> Inl e | Inr v \<Rightarrow> f v)"

subsection \<open>Values on the bus and effects\<close>

type_synonym byte = "8 word"

datatype variant =
    Str string
  | Boolean bool
  | ObjectPath string
  | ObjectPathArray "string list"
  | StrArray "string list"
  | ByteArray "byte list"

text \<open>A Python dict keeps its keys in insertion order: an association list.\<close>

type_synonym props = "(string \<times> variant) list"
type_synonym iface_props = "(string \<times> props) list"
type_synonym managed_objects = "(string \<times> iface_props) list"

datatype log_level = ERROR | WARNING | INFO | DEBUG

text \<open>
  What a call does to the outside: a record handed to the logger (level and the
  literal text of the message; the values an f-string formats into it are left out),
  a \<open>PropertiesChanged\<close> signal, a timer armed with \<open>GLib.timeout_add\<close>, the
  request sent to the GATT manager, the main loop entered or told to quit.
\<close>

datatype effect =
    Log log_level string
  | PropertiesChanged string props "string list"
  | Timeout_add int
  | RegisterApplication string
  | MainLoop_run
  | MainLoop_quit

subsection \<open>The object tree\<close>

record Descriptor =
  desc_path :: string
  desc_uuid :: string
  desc_flags :: "string list"
  desc_chrc :: string

record Characteristic =
  chrc_path :: string
  chrc_uuid :: string
  chrc_service :: string
  chrc_flags :: "string list"
  chrc_descriptors :: "Descriptor list"

text \<open>
  The two subclasses extend the base record, so that a method of the base class
  applies to their instances too. Only \<open>CurrentTimeCharacteristic\<close> adds an
  attribute, \<open>notifying\<close>. The back-references \<open>service\<close> and \<open>chrc\<close> are
  only ever read through \<open>get_path\<close>, so the records hold the parent's path.
\<close>

record CurrentTimeCharacteristic = Characteristic +
  notifying :: bool

type_synonym LocalTimeInformationCharacteristic = Characteristic

text \<open>An object in a service's list of characteristics, tagged with its class.\<close>

datatype chrc_object =
    Plain Characteristic
  | CurrentTime CurrentTimeCharacteristic
  | LocalTimeInformation LocalTimeInformationCharacteristic

record Service =
  svc_path :: string
  svc_uuid :: string
  svc_primary :: bool
  svc_characteristics :: "chrc_object list"

record Application =
  app_path :: string
  app_services :: "Service list"

text \<open>Python's \<open>str\<close> of an integer.\<close>

definition digit_char :: "nat \<Rightarrow> char" where
  "digit_char d = char_of (48 + d)"

fun str_nat :: "nat \<Rightarrow> string" where
  "str_nat n = (if n < 10 then [digit_char n] else str_nat (n div 10) @ [digit_char (n mod 10)])"

definition str_int :: "int \<Rightarrow> string" where
  "str_int i = (if i < 0 then CHR ''-'' # str_nat (nat (- i)) else str_nat (nat i))"


text \<open>Subscripting a dict raises \<open>KeyError\<close> on a key it does not hold.\<close>

definition getitem :: "('k \<times> 'v) list \<Rightarrow> 'k \<Rightarrow> error + 'v" where
  "getitem d k = (case map_of d k of None \<Rightarrow> Inl KeyError | Some v \<Rightarrow> Inr v)"

subsubsection \<open>Descriptor\<close>

definition Descriptor_init ::
  "int \<Rightarrow> string \<Rightarrow> string list \<Rightarrow> 'a Characteristic_scheme \<Rightarrow> Descriptor" where
  "Descriptor_init index uuid flags characteristic =
     \<lparr>desc_path = chrc_path characteristic @ ''/desc'' @ str_int index,
      desc_uuid = uuid, desc_flags = flags, desc_chrc = chrc_path characteristic\<rparr>"

definition Descriptor_get_path :: "Descriptor \<Rightarrow> string" where
  "Descriptor_get_path d = desc_path d"

definition Descriptor_get_properties :: "Descriptor \<Rightarrow> iface_props" where
  "Descriptor_get_properties d =
     [(GATT_DESC_IFACE,
       [(''Characteristic'', ObjectPath (desc_chrc d)),
        (''UUID'', Str (desc_uuid d)),
        (''Flags'', StrArray (desc_flags d))])]"

definition Descriptor_GetAll :: "Descriptor \<Rightarrow> string \<Rightarrow> error + props" where
  "Descriptor_GetAll d interface =
     (if interface \<noteq> GATT_DESC_IFACE then Inl InvalidArgsException
      else getitem (Descriptor_get_properties d) GATT_DESC_IFACE)"

definition Descriptor_ReadValue ::
  "Descriptor \<Rightarrow> props \<Rightarrow> (error + byte list) \<times> Descriptor \<times> effect list" where
  "Descriptor_ReadValue d options =
     (Inl NotSupportedException, d, [Log ERROR ''Default ReadValue called, returning error''])"

definition Descriptor_WriteValue ::
  "Descriptor \<Rightarrow> byte list \<Rightarrow> props \<Rightarrow> (error + unit) \<times> Descriptor \<times> effect list" where
  "Descriptor_WriteValue d v options =
     (Inl NotSupportedException, d, [Log ERROR ''Default WriteValue called, returning error''])"

subsubsection \<open>Characteristic (the base class)\<close>

definition Characteristic_init ::
  "int \<Rightarrow> string \<Rightarrow> string list \<Rightarrow> Service \<Rightarrow> Characteristic" where
  "Characteristic_init index uuid flags service =
     \<lparr>chrc_path = svc_path service @ ''/char'' @ str_int index, chrc_uuid = uuid,
      chrc_service = svc_path service, chrc_flags = flags, chrc_descriptors = []\<rparr>"

definition Characteristic_get_path :: "'a Characteristic_scheme \<Rightarrow> string" where
  "Characteristic_get_path c = chrc_path c"

definition add_descriptor ::
  "'a Characteristic_scheme \<Rightarrow> Descriptor \<Rightarrow> 'a Characteristic_scheme" where
  "add_descriptor c d = c\<lparr>chrc_descriptors := chrc_descriptors c @ [d]\<rparr>"

definition get_descriptors :: "'a Characteristic_scheme \<Rightarrow> Descriptor list" where
  "get_descriptors c = chrc_descriptors c"

fun get_descriptor_paths_loop :: "Descriptor list \<Rightarrow> string list \<Rightarrow> string list" where
  "get_descriptor_paths_loop [] result = result"
| "get_descriptor_paths_loop (desc # rest) result =
     get_descriptor_paths_loop rest (result @ [Descriptor_get_path desc])"

definition get_descriptor_paths :: "'a Characteristic_scheme \<Rightarrow> string list" where
  "get_descriptor_paths c = get_descriptor_paths_loop (chrc_descriptors c) []"

definition Characteristic_get_properties :: "'a Characteristic_scheme \<Rightarrow> iface_props" where
  "Characteristic_get_properties c =
     [(GATT_CHRC_IFACE,
       [(''Service'', ObjectPath (chrc_service c)),
        (''UUID'', Str (chrc_uuid c)),
        (''Flags'', StrArray (chrc_flags c)),
        (''Descriptors'', ObjectPathArray (get_descriptor_paths c))])]"

definition Characteristic_GetAll :: "'a Characteristic_scheme \<Rightarrow> string \<Rightarrow> error + props" where
  "Characteristic_GetAll c interface =
     (if interface \<noteq> GATT_CHRC_IFACE then Inl InvalidArgsException
      else getitem (Characteristic_get_properties c) GATT_CHRC_IFACE)"

definition Characteristic_ReadValue ::
  "'a Characteristic_scheme \<Rightarrow> props \<Rightarrow>
   (error + byte list) \<times> 'a Characteristic_scheme \<times> effect list" where
  "Characteristic_ReadValue c options =
     (Inl NotSupportedException, c, [Log ERROR ''Default ReadValue called, returning error''])"

definition Characteristic_WriteValue ::
  "'a Characteristic_scheme \<Rightarrow> byte list \<Rightarrow> props \<Rightarrow>
   (error + unit) \<times> 'a Characteristic_scheme \<times> effect list" where
  "Characteristic_WriteValue c v options =
     (Inl NotSupportedException, c, [Log ERROR ''Default WriteValue called, returning error''])"

definition Characteristic_StartNotify ::
  "'a Characteristic_scheme \<Rightarrow> (error + unit) \<times> 'a Characteristic_scheme \<times> effect list" where
  "Characteristic_StartNotify c =
     (Inl NotSupportedException, c, [Log ERROR ''Default StartNotify called, returning error''])"

definition Characteristic_StopNotify ::
  "'a Characteristic_scheme \<Rightarrow> (error + unit) \<times> 'a Characteristic_scheme \<times> effect list" where
  "Characteristic_StopNotify c =
     (Inl NotSupportedException, c, [Log ERROR ''Default StopNotify called, returning error''])"

text \<open>The methods every class of characteristic inherits, on a tagged object.\<close>

fun chrc_get_path :: "chrc_object \<Rightarrow> string" where
  "chrc_get_path (Plain c) = Characteristic_get_path c"
| "chrc_get_path (CurrentTime c) = Characteristic_get_path c"
| "chrc_get_path (LocalTimeInformation c) = Characteristic_get_path c"

fun chrc_get_properties :: "chrc_object \<Rightarrow> iface_props" where
  "chrc_get_properties (Plain c) = Characteristic_get_properties c"
| "chrc_get_properties (CurrentTime c) = Characteristic_get_properties c"
| "chrc_get_properties (LocalTimeInformation c) = Characteristic_get_properties c"

fun chrc_get_descriptors :: "chrc_object \<Rightarrow> Descriptor list" where
  "chrc_get_descriptors (Plain c) = get_descriptors c"
| "chrc_get_descriptors (CurrentTime c) = get_descriptors c"
| "chrc_get_descriptors (LocalTimeInformation c) = get_descriptors c"

fun chrc_GetAll :: "chrc_object \<Rightarrow> string \<Rightarrow> error + props" where
  "chrc_GetAll (Plain c) interface = Characteristic_GetAll c interface"
| "chrc_GetAll (CurrentTime c) interface = Characteristic_GetAll c interface"
| "chrc_GetAll (LocalTimeInformation c) interface = Characteristic_GetAll c interface"

subsubsection \<open>Service\<close>

definition PATH_BASE :: string where
  "PATH_BASE = ''/org/bluez/example/service''"

text \<open>
  The constructors compute the path and store the attributes. What
  \<open>dbus.service.Object.__init__\<close> then does with the bus, where it refuses a path that
  is registered already or that is no object path, is not part of the model.
\<close>

definition Service_init :: "int \<Rightarrow> string \<Rightarrow> bool \<Rightarrow> Service" where
  "Service_init index uuid primary =
     \<lparr>svc_path = PATH_BASE @ str_int index, svc_uuid = uuid, svc_primary = primary,
      svc_characteristics = []\<rparr>"

definition Service_get_path :: "Service \<Rightarrow> string" where
  "Service_get_path s = svc_path s"

definition add_characteristic :: "Service \<Rightarrow> chrc_object \<Rightarrow> Service" where
  "add_characteristic s c = s\<lparr>svc_characteristics := svc_characteristics s @ [c]\<rparr>"

definition get_characteristics :: "Service \<Rightarrow> chrc_object list" where
  "get_characteristics s = svc_characteristics s"

fun get_characteristic_paths_loop :: "chrc_object list \<Rightarrow> string list \<Rightarrow> string list" where
  "get_characteristic_paths_loop [] result = result"
| "get_characteristic_paths_loop (chrc # rest) result =
     get_characteristic_paths_loop rest (result @ [chrc_get_path chrc])"

definition get_characteristic_paths :: "Service \<Rightarrow> string list" where
  "get_characteristic_paths s = get_characteristic_paths_loop (svc_characteristics s) []"

definition Service_get_properties :: "Service \<Rightarrow> iface_props" where
  "Service_get_properties s =
     [(GATT_SERVICE_IFACE,
       [(''UUID'', Str (svc_uuid s)),
        (''Primary'', Boolean (svc_primary s)),
        (''Characteristics'', ObjectPathArray (get_characteristic_paths s))])]"

definition Service_GetAll :: "Service \<Rightarrow> string \<Rightarrow> error + props" where
  "Service_GetAll s interface =
     (if interface \<noteq> GATT_SERVICE_IFACE then Inl InvalidArgsException
      else getitem (Service_get_properties s) GATT_SERVICE_IFACE)"

subsection \<open>Python numbers\<close>

text \<open>
  A Python float is an IEEE 754 binary64 number. A finite one is modelled by a
  mantissa and an exponent: \<open>(m, e)\<close> stands for \<open>m * 2 ^ e\<close>. Every operation
  computes its exact result and rounds it to 53 significant bits, ties to even. The
  exponent range of binary64 is not modelled: the values below stay far inside it.
\<close>

type_synonym pyfloat = "int \<times> int"

definition round53 :: "int \<Rightarrow> int \<Rightarrow> pyfloat" where
  "round53 m e =
     (let n = bitlen \<bar>m\<bar> in
      if n \<le> 53 then (m, e)
      else
        let s = nat (n - 53);
            q = \<bar>m\<bar> div 2 ^ s;
            r = \<bar>m\<bar> mod 2 ^ s;
            h = 2 ^ (s - 1);
            q' = (if h < r \<or> (r = h \<and> odd q) then q + 1 else q)
        in (sgn m * q', e + int s))"

text \<open>Conversion of an int, as in \<open>n * 1e-6\<close>, and the product of two floats.\<close>

definition float_of_int :: "int \<Rightarrow> pyfloat" where
  "float_of_int i = round53 i 0"

definition float_mul :: "pyfloat \<Rightarrow> pyfloat \<Rightarrow> pyfloat" where
  "float_mul x y = round53 (fst x * fst y) (snd x + snd y)"

text \<open>The literal \<open>1e-6\<close>: the binary64 number 0x1.0c6f7a0b5ed8dp-20.\<close>

definition float_1e_6 :: pyfloat where
  "float_1e_6 = (4722366482869645, - 72)"

text \<open>\<open>int(x)\<close> truncates towards zero.\<close>

definition int_of_float :: "pyfloat \<Rightarrow> int" where
  "int_of_float x =
     (if 0 \<le> snd x then fst x * 2 ^ nat (snd x)
      else sgn (fst x) * (\<bar>fst x\<bar> div 2 ^ nat (- snd x)))"

text \<open>
  \<open>a / b\<close> on ints is the correctly rounded quotient. The quotient is computed to at
  least 55 bits, with one more bit that tells whether anything was left over, and
  then rounded.
\<close>

definition int_truediv :: "int \<Rightarrow> int \<Rightarrow> error + pyfloat" where
  "int_truediv a b =
     (if b = 0 then Inl ZeroDivisionError
      else if a = 0 then Inr (0, 0)
      else
        let k = 55 - (bitlen \<bar>a\<bar> - bitlen \<bar>b\<bar>);
            n = (if 0 \<le> k then \<bar>a\<bar> * 2 ^ nat k else \<bar>a\<bar>);
            d = (if 0 \<le> k then \<bar>b\<bar> else \<bar>b\<bar> * 2 ^ nat (- k));
            sticky = (if n mod d = 0 then 0 else 1)
        in Inr (round53 (sgn a * sgn b * (2 * (n div d) + sticky)) (- k - 1)))"

text \<open>\<open>int.to_bytes(length, 'little', signed=...)\<close> and \<open>dbus.Byte(i)\<close>.\<close>

fun le_bytes :: "nat \<Rightarrow> int \<Rightarrow> int list" where
  "le_bytes 0 v = []"
| "le_bytes (Suc n) v = (v mod 256) # le_bytes n (v div 256)"

definition to_bytes_little :: "int \<Rightarrow> nat \<Rightarrow> bool \<Rightarrow> error + int list" where
  "to_bytes_little v len is_signed =
     (if is_signed then
        (if - (2 ^ (8 * len)) \<le> 2 * v \<and> 2 * v < 2 ^ (8 * len)
         then Inr (le_bytes len v) else Inl OverflowError)
      else
        (if 0 \<le> v \<and> v < 2 ^ (8 * len)
         then Inr (le_bytes len v) else Inl OverflowError))"

definition Byte :: "int \<Rightarrow> error + byte" where
  "Byte i = (if 0 \<le> i \<and> i \<le> 255 then Inr (word_of_int i) else Inl ValueError)"

fun Byte_each :: "int list \<Rightarrow> error + byte list" where
  "Byte_each [] = Inr []"
| "Byte_each (b # bs) =
     bind_err (Byte b) (\<lambda>x. bind_err (Byte_each bs) (\<lambda>xs. Inr (x # xs)))"

definition append_Byte :: "byte list \<Rightarrow> int \<Rightarrow> error + byte list" where
  "append_Byte v i = bind_err (Byte i) (\<lambda>b. Inr (v @ [b]))"

definition index_list :: "'a list \<Rightarrow> nat \<Rightarrow> error + 'a" where
  "index_list xs i = (if i < length xs then Inr (xs ! i) else Inl IndexError)"

subsection \<open>Dates and the platform's clock\<close>

record datetime =
  year :: int
  month :: int
  day :: int
  hour :: int
  minute :: int
  second :: int
  microsecond :: int

text \<open>The calendar arithmetic of the \<open>datetime\<close> module behind \<open>isoweekday\<close>.\<close>

definition is_leap :: "int \<Rightarrow> bool" where
  "is_leap y = (y mod 4 = 0 \<and> (y mod 100 \<noteq> 0 \<or> y mod 400 = 0))"

definition DAYS_IN_MONTH :: "int list" where
  "DAYS_IN_MONTH = [31, 28, 31, 30, 31, 30, 31, 31, 30, 31, 30, 31]"

definition days_in_month :: "int \<Rightarrow> int \<Rightarrow> int" where
  "days_in_month y m = (if m = 2 \<and> is_leap y then 29 else DAYS_IN_MONTH ! nat (m - 1))"

definition days_before_year :: "int \<Rightarrow> int" where
  "days_before_year y' = (let y = y' - 1 in y * 365 + y div 4 - y div 100 + y div 400)"

definition days_before_month :: "int \<Rightarrow> int \<Rightarrow> int" where
  "days_before_month y m =
     sum_list (take (nat (m - 1)) DAYS_IN_MONTH) + (if 2 < m \<and> is_leap y then 1 else 0)"

definition toordinal :: "datetime \<Rightarrow> int" where
  "toordinal dt = days_before_year (year dt) + days_before_month (year dt) (month dt) + day dt"

definition isoweekday :: "datetime \<Rightarrow> int" where
  "isoweekday dt = (let w = toordinal dt mod 7 in if w = 0 then 7 else w)"

text \<open>The values a \<open>datetime\<close> object can hold.\<close>

definition valid_datetime :: "datetime \<Rightarrow> bool" where
  "valid_datetime dt =
     (1 \<le> year dt \<and> year dt \<le> 9999 \<and> 1 \<le> month dt \<and> month dt \<le> 12 \<and>
      1 \<le> day dt \<and> day dt \<le> days_in_month (year dt) (month dt) \<and>
      0 \<le> hour dt \<and> hour dt \<le> 23 \<and> 0 \<le> minute dt \<and> minute dt \<le> 59 \<and>
      0 \<le> second dt \<and> second dt \<le> 59 \<and>
      0 \<le> microsecond dt \<and> microsecond dt \<le> 999999)"

text \<open>A \<open>timedelta\<close> is a whole number of microseconds.\<close>

type_synonym timedelta = int

definition timedelta_seconds :: "int \<Rightarrow> timedelta" where
  "timedelta_seconds s = s * 1000000"

definition timedelta_minutes :: "int \<Rightarrow> timedelta" where
  "timedelta_minutes m = m * 60000000"

definition timedelta_truediv :: "timedelta \<Rightarrow> timedelta \<Rightarrow> error + pyfloat" where
  "timedelta_truediv a b = int_truediv a b"

text \<open>
  What the platform answers after \<open>time.tzset()\<close>: the local time \<open>datetime.now()\<close>,
  \<open>time.timezone\<close> and \<open>time.altzone\<close> (seconds west of UTC of the zone's standard
  and of its daylight-saving time), and whether daylight-saving time is in force at
  this moment (\<open>time.localtime().tm_isdst\<close>), which the program never reads.
\<close>

record environment =
  now :: datetime
  timezone :: int
  altzone :: int
  tm_isdst :: bool

subsection \<open>CurrentTimeCharacteristic\<close>

definition CurrentTimeCharacteristic_init ::
  "int \<Rightarrow> Service \<Rightarrow> (string \<times> int option) list \<Rightarrow>
   CurrentTimeCharacteristic \<times> effect list" where
  "CurrentTimeCharacteristic_init index service kwargs =
     (Characteristic.extend
        (Characteristic_init index ''2a2B'' [''read'', ''notify''] service)
        (CurrentTimeCharacteristic.fields False),
      (case getitem kwargs ''notify_period'' of
         Inl e \<Rightarrow> []
       | Inr notify_period \<Rightarrow>
           (case notify_period of None \<Rightarrow> [] | Some p \<Rightarrow> [Timeout_add (p * 1000)])))"

definition fraction256 :: "int \<Rightarrow> int" where
  "fraction256 us =
     int_of_float (float_mul (float_mul (float_of_int us) float_1e_6) (float_of_int 256))"

definition current_time_bytes :: "environment \<Rightarrow> (error + byte list) \<times> effect list" where
  "current_time_bytes env =
     (let dt = now env in
      case
        bind_err (to_bytes_little (year dt) 2 False) (\<lambda>year_bytes.
        bind_err (Byte_each year_bytes) (\<lambda>v.
        bind_err (append_Byte v (month dt)) (\<lambda>v.
        bind_err (append_Byte v (day dt)) (\<lambda>v.
        bind_err (append_Byte v (hour dt)) (\<lambda>v.
        bind_err (append_Byte v (minute dt)) (\<lambda>v.
        bind_err (append_Byte v (second dt)) (\<lambda>v.
        bind_err (append_Byte v (isoweekday dt)) (\<lambda>v.
        bind_err (append_Byte v (fraction256 (microsecond dt))) (\<lambda>v.
        append_Byte v 1)))))))))
      of
        Inl e \<Rightarrow> (Inl e, [])
      | Inr v \<Rightarrow> (Inr v, [Log DEBUG ''CT: '']))"

definition notify_current_time ::
  "environment \<Rightarrow> CurrentTimeCharacteristic \<Rightarrow>
   (error + unit) \<times> CurrentTimeCharacteristic \<times> effect list" where
  "notify_current_time env self =
     (if \<not> notifying self then (Inr (), self, [])
      else
        (case current_time_bytes env of
           (Inl e, effs) \<Rightarrow> (Inl e, self, effs)
         | (Inr v, effs) \<Rightarrow>
             (Inr (), self, effs @ [PropertiesChanged GATT_CHRC_IFACE [(''Value'', ByteArray v)] []])))"

definition notify_time ::
  "environment \<Rightarrow> CurrentTimeCharacteristic \<Rightarrow>
   (error + bool) \<times> CurrentTimeCharacteristic \<times> effect list" where
  "notify_time env self =
     (if \<not> notifying self then (Inr True, self, [])
      else
        (case notify_current_time env self of
           (Inl e, self', effs) \<Rightarrow>
             (Inl e, self', Log INFO ''Notifying current local time'' # effs)
         | (Inr u, self', effs) \<Rightarrow>
             (Inr True, self', Log INFO ''Notifying current local time'' # effs)))"

definition CurrentTimeCharacteristic_ReadValue ::
  "environment \<Rightarrow> CurrentTimeCharacteristic \<Rightarrow> props \<Rightarrow>
   (error + byte list) \<times> CurrentTimeCharacteristic \<times> effect list" where
  "CurrentTimeCharacteristic_ReadValue env self options =
     (case current_time_bytes env of
        (Inl e, effs) \<Rightarrow> (Inl e, self, effs)
      | (Inr v, effs) \<Rightarrow>
          (case getitem options ''device'' of
             Inl e \<Rightarrow> (Inl e, self, effs)
           | Inr device \<Rightarrow> (Inr v, self, effs @ [Log INFO ''Supplying time to ''])))"

definition CurrentTimeCharacteristic_StartNotify ::
  "CurrentTimeCharacteristic \<Rightarrow>
   (error + unit) \<times> CurrentTimeCharacteristic \<times> effect list" where
  "CurrentTimeCharacteristic_StartNotify self =
     (if notifying self then (Inr (), self, [Log WARNING ''Already notifying, nothing to do''])
      else (Inr (), self\<lparr>notifying := True\<rparr>, []))"

definition CurrentTimeCharacteristic_StopNotify ::
  "CurrentTimeCharacteristic \<Rightarrow>
   (error + unit) \<times> CurrentTimeCharacteristic \<times> effect list" where
  "CurrentTimeCharacteristic_StopNotify self =
     (if \<not> notifying self then (Inr (), self, [Log WARNING ''Not notifying, nothing to do''])
      else (Inr (), self\<lparr>notifying := False\<rparr>, []))"

subsection \<open>LocalTimeInformationCharacteristic\<close>

definition LocalTimeInformationCharacteristic_init ::
  "int \<Rightarrow> Service \<Rightarrow> (string \<times> int option) list \<Rightarrow> LocalTimeInformationCharacteristic" where
  "LocalTimeInformationCharacteristic_init index service kwargs =
     Characteristic_init index ''2a0f'' [''read''] service"

definition local_time_information_bytes ::
  "environment \<Rightarrow> (error + byte list) \<times> effect list" where
  "local_time_information_bytes env =
     (let time_zone_offset = timedelta_seconds (- timezone env);
          dst_offset = timedelta_seconds (- altzone env) - time_zone_offset
      in
        case
          bind_err (timedelta_truediv time_zone_offset (timedelta_minutes 15)) (\<lambda>q.
          bind_err (timedelta_truediv dst_offset (timedelta_minutes 15)) (\<lambda>q'.
          Inr (int_of_float q, int_of_float q')))
        of
          Inl e \<Rightarrow> (Inl e, [])
        | Inr (time_zone_offset_15min, dst_offset_15_min) \<Rightarrow>
            (bind_err (to_bytes_little time_zone_offset_15min 1 True) (\<lambda>bs.
             bind_err (index_list bs 0) (\<lambda>b0.
             bind_err (Byte b0) (\<lambda>x0.
             bind_err (Byte dst_offset_15_min) (\<lambda>x1.
             Inr [x0, x1])))),
             [Log DEBUG ''LTI: TZ offset =  (); DST offset =  ()'']))"

definition LocalTimeInformationCharacteristic_ReadValue ::
  "environment \<Rightarrow> LocalTimeInformationCharacteristic \<Rightarrow> props \<Rightarrow>
   (error + byte list) \<times> LocalTimeInformationCharacteristic \<times> effect list" where
  "LocalTimeInformationCharacteristic_ReadValue env self options =
     (case local_time_information_bytes env of
        (Inl e, effs) \<Rightarrow> (Inl e, self, effs)
      | (Inr v, effs) \<Rightarrow>
          (case getitem options ''device'' of
             Inl e \<Rightarrow> (Inl e, self, effs)
           | Inr device \<Rightarrow>
               (Inr v, self, effs @ [Log INFO ''Supplying local time information to ''])))"

subsection \<open>Calling a method on a characteristic or a descriptor\<close>

text \<open>
  The methods a caller can name on a characteristic object. Which body runs depends
  on the object's class: \<open>CurrentTimeCharacteristic\<close> defines \<open>ReadValue\<close>,
  \<open>StartNotify\<close>, \<open>StopNotify\<close>, \<open>notify_time\<close> and \<open>notify_current_time\<close>,
  \<open>LocalTimeInformationCharacteristic\<close> defines \<open>ReadValue\<close>, everything else is
  inherited from \<open>Characteristic\<close>. A name the class does not have raises
  \<open>AttributeError\<close>.
\<close>

datatype chrc_method =
    ReadValue props
  | WriteValue "byte list" props
  | StartNotify
  | StopNotify
  | GetAll string
  | Notify_time
  | Notify_current_time
  | Add_descriptor Descriptor

definition raised :: "error + 'a \<Rightarrow> error option" where
  "raised r = (case r of Inl e \<Rightarrow> Some e | Inr v \<Rightarrow> None)"

definition outcome ::
  "('s \<Rightarrow> chrc_object) \<Rightarrow> (error + 'a) \<times> 's \<times> effect list \<Rightarrow>
   error option \<times> chrc_object \<times> effect list" where
  "outcome tag r = (case r of (res, self, effs) \<Rightarrow> (raised res, tag self, effs))"

fun call ::
  "environment \<Rightarrow> chrc_object \<Rightarrow> chrc_method \<Rightarrow> error option \<times> chrc_object \<times> effect list" where
  "call env (CurrentTime c) (ReadValue options) =
     outcome CurrentTime (CurrentTimeCharacteristic_ReadValue env c options)"
| "call env (CurrentTime c) StartNotify =
     outcome CurrentTime (CurrentTimeCharacteristic_StartNotify c)"
| "call env (CurrentTime c) StopNotify =
     outcome CurrentTime (CurrentTimeCharacteristic_StopNotify c)"
| "call env (CurrentTime c) Notify_time = outcome CurrentTime (notify_time env c)"
| "call env (CurrentTime c) Notify_current_time =
     outcome CurrentTime (notify_current_time env c)"
| "call env (CurrentTime c) (WriteValue v options) =
     outcome CurrentTime (Characteristic_WriteValue c v options)"
| "call env (CurrentTime c) (GetAll interface) =
     (raised (Characteristic_GetAll c interface), CurrentTime c, [])"
| "call env (CurrentTime c) (Add_descriptor d) = (None, CurrentTime (add_descriptor c d), [])"
| "call env (LocalTimeInformation c) (ReadValue options) =
     outcome LocalTimeInformation (LocalTimeInformationCharacteristic_ReadValue env c options)"
| "call env (LocalTimeInformation c) (WriteValue v options) =
     outcome LocalTimeInformation (Characteristic_WriteValue c v options)"
| "call env (LocalTimeInformation c) StartNotify =
     outcome LocalTimeInformation (Characteristic_StartNotify c)"
| "call env (LocalTimeInformation c) StopNotify =
     outcome LocalTimeInformation (Characteristic_StopNotify c)"
| "call env (LocalTimeInformation c) (GetAll interface) =
     (raised (Characteristic_GetAll c interface), LocalTimeInformation c, [])"
| "call env (LocalTimeInformation c) (Add_descriptor d) =
     (None, LocalTimeInformation (add_descriptor c d), [])"
| "call env (LocalTimeInformation c) Notify_time =
     (Some AttributeError, LocalTimeInformation c, [])"
| "call env (LocalTimeInformation c) Notify_current_time =
     (Some AttributeError, LocalTimeInformation c, [])"
| "call env (Plain c) (ReadValue options) = outcome Plain (Characteristic_ReadValue c options)"
| "call env (Plain c) (WriteValue v options) =
     outcome Plain (Characteristic_WriteValue c v options)"
| "call env (Plain c) StartNotify = outcome Plain (Characteristic_StartNotify c)"
| "call env (Plain c) StopNotify = outcome Plain (Characteristic_StopNotify c)"
| "call env (Plain c) (GetAll interface) =
     (raised (Characteristic_GetAll c interface), Plain c, [])"
| "call env (Plain c) (Add_descriptor d) = (None, Plain (add_descriptor c d), [])"
| "call env (Plain c) Notify_time = (Some AttributeError, Plain c, [])"
| "call env (Plain c) Notify_current_time = (Some AttributeError, Plain c, [])"

text \<open>Whether the class of the object has its own body for a method name.\<close>

fun overrides :: "chrc_object \<Rightarrow> chrc_method \<Rightarrow> bool" where
  "overrides (CurrentTime c) (ReadValue options) = True"
| "overrides (CurrentTime c) StartNotify = True"
| "overrides (CurrentTime c) StopNotify = True"
| "overrides (LocalTimeInformation c) (ReadValue options) = True"
| "overrides obj m = False"

text \<open>The four operations of the GATT characteristic interface.\<close>

fun gatt_operation :: "chrc_method \<Rightarrow> bool" where
  "gatt_operation (ReadValue options) = True"
| "gatt_operation (WriteValue v options) = True"
| "gatt_operation StartNotify = True"
| "gatt_operation StopNotify = True"
| "gatt_operation m = False"

fun notifying_of :: "chrc_object \<Rightarrow> bool option" where
  "notifying_of (CurrentTime c) = Some (notifying c)"
| "notifying_of obj = None"

text \<open>The class \<open>Descriptor\<close> has no subclass and declares these methods.\<close>

datatype desc_method =
    Desc_ReadValue props
  | Desc_WriteValue "byte list" props
  | Desc_GetAll string

fun desc_call :: "Descriptor \<Rightarrow> desc_method \<Rightarrow> error option \<times> Descriptor \<times> effect list" where
  "desc_call d (Desc_ReadValue options) =
     (case Descriptor_ReadValue d options of (res, self, effs) \<Rightarrow> (raised res, self, effs))"
| "desc_call d (Desc_WriteValue v options) =
     (case Descriptor_WriteValue d v options of (res, self, effs) \<Rightarrow> (raised res, self, effs))"
| "desc_call d (Desc_GetAll interface) = (raised (Descriptor_GetAll d interface), d, [])"

fun desc_operation :: "desc_method \<Rightarrow> bool" where
  "desc_operation (Desc_ReadValue options) = True"
| "desc_operation (Desc_WriteValue v options) = True"
| "desc_operation m = False"

text \<open>\<open>GetAll\<close> and \<open>get_properties\<close> on a node of any of the three kinds.\<close>

datatype node = ServiceNode Service | ChrcNode chrc_object | DescNode Descriptor

fun node_get_properties :: "node \<Rightarrow> iface_props" where
  "node_get_properties (ServiceNode s) = Service_get_properties s"
| "node_get_properties (ChrcNode c) = chrc_get_properties c"
| "node_get_properties (DescNode d) = Descriptor_get_properties d"

fun node_GetAll :: "node \<Rightarrow> string \<Rightarrow> error + props" where
  "node_GetAll (ServiceNode s) interface = Service_GetAll s interface"
| "node_GetAll (ChrcNode c) interface = chrc_GetAll c interface"
| "node_GetAll (DescNode d) interface = Descriptor_GetAll d interface"

subsection \<open>CurrentTimeService and Application\<close>

definition CurrentTimeService_init ::
  "int \<Rightarrow> (string \<times> int option) list \<Rightarrow> Service \<times> effect list" where
  "CurrentTimeService_init index kwargs =
     (let self = Service_init index ''1805'' True;
          (ct, effs) = CurrentTimeCharacteristic_init 0 self kwargs;
          self = add_characteristic self (CurrentTime ct);
          lti = LocalTimeInformationCharacteristic_init 1 self kwargs;
          self = add_characteristic self (LocalTimeInformation lti)
      in (self, effs))"

definition add_service :: "Application \<Rightarrow> Service \<Rightarrow> Application" where
  "add_service a s = a\<lparr>app_services := app_services a @ [s]\<rparr>"

definition Application_init :: "(string \<times> int option) list \<Rightarrow> Application \<times> effect list" where
  "Application_init kwargs =
     (let self = \<lparr>app_path = ''/'', app_services = []\<rparr>;
          (service, effs) = CurrentTimeService_init 0 kwargs
      in (add_service self service, effs))"

definition Application_get_path :: "Application \<Rightarrow> string" where
  "Application_get_path a = app_path a"

text \<open>
  \<open>GetManagedObjects\<close>: three nested loops that assign into the dict \<open>response\<close>.
  Assigning to a key the dict has replaces the value and keeps the key's place.
\<close>

fun descs_loop :: "Descriptor list \<Rightarrow> managed_objects \<Rightarrow> managed_objects" where
  "descs_loop [] response = response"
| "descs_loop (desc # rest) response =
     descs_loop rest
       (AList.update (Descriptor_get_path desc) (Descriptor_get_properties desc) response)"

fun chrcs_loop :: "chrc_object list \<Rightarrow> managed_objects \<Rightarrow> managed_objects" where
  "chrcs_loop [] response = response"
| "chrcs_loop (chrc # rest) response =
     chrcs_loop rest
       (descs_loop (chrc_get_descriptors chrc)
          (AList.update (chrc_get_path chrc) (chrc_get_properties chrc) response))"

fun services_loop :: "Service list \<Rightarrow> managed_objects \<Rightarrow> managed_objects" where
  "services_loop [] response = response"
| "services_loop (service # rest) response =
     services_loop rest
       (chrcs_loop (get_characteristics service)
          (AList.update (Service_get_path service) (Service_get_properties service) response))"

text \<open>
  The method returns \<open>response\<close> and assigns to no attribute: the object after the
  call is the object before it.
\<close>

definition GetManagedObjects :: "Application \<Rightarrow> managed_objects \<times> Application" where
  "GetManagedObjects self = (services_loop (app_services self) [], self)"

text \<open>
  The nodes of a tree as its fields hold them, whatever the class of a
  characteristic: the attribute \<open>path\<close> and the list \<open>descriptors\<close>.
\<close>

fun path_field :: "chrc_object \<Rightarrow> string" where
  "path_field (Plain c) = chrc_path c"
| "path_field (CurrentTime c) = chrc_path c"
| "path_field (LocalTimeInformation c) = chrc_path c"

fun descriptors_field :: "chrc_object \<Rightarrow> Descriptor list" where
  "descriptors_field (Plain c) = chrc_descriptors c"
| "descriptors_field (CurrentTime c) = chrc_descriptors c"
| "descriptors_field (LocalTimeInformation c) = chrc_descriptors c"

text \<open>
  The paths of the nodes of a tree, in the order of the traversal: every service in
  \<open>services\<close>, every characteristic in its \<open>characteristics\<close>, every descriptor in
  its \<open>descriptors\<close>. The lists and the paths are read from the fields, not
  through the methods that \<open>GetManagedObjects\<close> calls.
\<close>

definition chrc_paths :: "chrc_object \<Rightarrow> string list" where
  "chrc_paths c = path_field c # map desc_path (descriptors_field c)"

definition service_paths :: "Service \<Rightarrow> string list" where
  "service_paths s = svc_path s # concat (map chrc_paths (svc_characteristics s))"

definition node_paths :: "Application \<Rightarrow> string list" where
  "node_paths a = concat (map service_paths (app_services a))"

subsection \<open>Server\<close>

datatype MainLoop = MainLoop

text \<open>
  The only attribute of a \<open>Server\<close> is \<open>mainloop\<close>; \<open>None\<close> says that it was never
  assigned. The argument \<open>objects\<close> is what the ObjectManager of BlueZ answers.
\<close>

record Server =
  mainloop :: "MainLoop option"

fun find_adapter :: "managed_objects \<Rightarrow> string option" where
  "find_adapter [] = None"
| "find_adapter ((obj, props) # rest) =
     (if GATT_MANAGER_IFACE \<in> set (map fst props) then Some obj else find_adapter rest)"

definition Server_init :: "managed_objects \<Rightarrow> int option \<Rightarrow> Server \<times> effect list" where
  "Server_init objects notify_period =
     (let adapter = find_adapter objects in
      if adapter = None \<or> adapter = Some [] then
        (\<lparr>mainloop = None\<rparr>, [Log ERROR ''GattManager1 interface not found''])
      else
        let (app, effs) = Application_init [(''notify_period'', notify_period)] in
        (\<lparr>mainloop = Some MainLoop\<rparr>,
         effs @ [Log INFO ''Registering GATT application...'',
                 RegisterApplication (Application_get_path app)]))"

definition run :: "Server \<Rightarrow> (error + unit) \<times> effect list" where
  "run self =
     (case mainloop self of
        None \<Rightarrow> (Inl AttributeError, [])
      | Some ml \<Rightarrow> (Inr (), [MainLoop_run]))"

definition register_app_cb :: "effect list" where
  "register_app_cb = [Log INFO ''GATT application registered'']"

definition register_app_error_cb :: "Server \<Rightarrow> (error + unit) \<times> effect list" where
  "register_app_error_cb self =
     (case mainloop self of
        None \<Rightarrow> (Inl AttributeError, [Log ERROR ''Failed to register application: ''])
      | Some ml \<Rightarrow> (Inr (), [Log ERROR ''Failed to register application: '', MainLoop_quit]))"

text \<open>The script's last line: \<open>Server(args.notify_period).run()\<close>.\<close>

definition main :: "managed_objects \<Rightarrow> int option \<Rightarrow> (error + unit) \<times> effect list" where
  "main objects notify_period =
     (let (server, effs) = Server_init objects notify_period;
          (r, effs') = run server
      in (r, effs @ effs'))"

subsection \<open>The Local Time Information fields as the specification words them\<close>

text \<open>
  The specification derives the second byte from the offset in force at the moment
  of the call: the total current offset is that of the daylight-saving zone while
  daylight-saving time is in force and the base offset otherwise, and the field is
  the total current offset minus the base offset, in units of 15 minutes. An offset
  in units of 15 minutes is the number of whole quarter hours in it, counted towards
  zero.
\<close>

definition quarter_hours :: "int \<Rightarrow> int" where
  "quarter_hours seconds = sgn seconds * (\<bar>seconds\<bar> div 900)"

definition spec_total_current_offset :: "environment \<Rightarrow> int" where
  "spec_total_current_offset env = (if tm_isdst env then - altzone env else - timezone env)"

definition spec_dst_offset_15min :: "environment \<Rightarrow> int" where
  "spec_dst_offset_15min env =
     quarter_hours (spec_total_current_offset env - (- timezone env))"

subsection \<open>Devices for the proofs about paths\<close>

text \<open>\<open>int\<close> of a string of decimal digits, the inverse of \<open>str\<close>.\<close>

definition digits_value :: "string \<Rightarrow> nat" where
  "digits_value s = foldl (\<lambda>a c. 10 * a + (of_char c - 48)) 0 s"

text \<open>
  The entries of the nodes of a tree, path and properties, in the order of the
  traversal, again with the lists and the paths read from the fields.
\<close>

definition chrc_entries :: "chrc_object \<Rightarrow> managed_objects" where
  "chrc_entries c =
     (path_field c, chrc_get_properties c) #
     map (\<lambda>d. (desc_path d, Descriptor_get_properties d)) (descriptors_field c)"

definition service_entries :: "Service \<Rightarrow> managed_objects" where
  "service_entries s =
     (svc_path s, Service_get_properties s) #
     concat (map chrc_entries (svc_characteristics s))"

definition node_entries :: "Application \<Rightarrow> managed_objects" where
  "node_entries a = concat (map service_entries (app_services a))"

text \<open>
  A tree put together with the constructors: the path of a service is \<open>PATH_BASE\<close>
  and its index, the path of a characteristic or descriptor is the path of its
  parent, \<open>/char\<close> or \<open>/desc\<close> and its index. The indexes of a tree are kept apart
  from it, as the objects do not store them.
\<close>

type_synonym chrc_index = "int \<times> int list"
type_synonym service_index = "int \<times> chrc_index list"

definition desc_built :: "string \<Rightarrow> Descriptor \<Rightarrow> int \<Rightarrow> bool" where
  "desc_built parent d k = (Descriptor_get_path d = parent @ ''/desc'' @ str_int k)"

definition chrc_built :: "string \<Rightarrow> chrc_object \<Rightarrow> chrc_index \<Rightarrow> bool" where
  "chrc_built parent c jx =
     (chrc_get_path c = parent @ ''/char'' @ str_int (fst jx) \<and>
      list_all2 (desc_built (chrc_get_path c)) (chrc_get_descriptors c) (snd jx))"

definition service_built :: "Service \<Rightarrow> service_index \<Rightarrow> bool" where
  "service_built s ix =
     (Service_get_path s = PATH_BASE @ str_int (fst ix) \<and>
      list_all2 (chrc_built (Service_get_path s)) (get_characteristics s) (snd ix))"

definition app_built :: "Application \<Rightarrow> service_index list \<Rightarrow> bool" where
  "app_built a ixs =
     (Application_get_path a = ''/'' \<and> list_all2 service_built (app_services a) ixs)"

definition siblings_distinct :: "service_index list \<Rightarrow> bool" where
  "siblings_distinct ixs =
     (distinct (map fst ixs) \<and>
      (\<forall>ix \<in> set ixs. distinct (map fst (snd ix)) \<and> (\<forall>jx \<in> set (snd ix). distinct (snd jx))))"

definition chrc_index_paths :: "string \<Rightarrow> chrc_index \<Rightarrow> string list" where
  "chrc_index_paths parent jx =
     (parent @ ''/char'' @ str_int (fst jx)) #
     map (\<lambda>k. (parent @ ''/char'' @ str_int (fst jx)) @ ''/desc'' @ str_int k) (snd jx)"

definition service_index_paths :: "service_index \<Rightarrow> string list" where
  "service_index_paths ix =
     (PATH_BASE @ str_int (fst ix)) #
     concat (map (chrc_index_paths (PATH_BASE @ str_int (fst ix))) (snd ix))"

text \<open>The paths at or below the node with index \<open>j\<close>: that node's path, then nothing or a slash.\<close>

definition below :: "string \<Rightarrow> int \<Rightarrow> string set" where
  "below prefix j = {prefix @ str_int j @ r | r. r = [] \<or> hd r = CHR ''/''}"

section \<open>Properties\<close>

subsection \<open>Exceptions of the helpers\<close>

lemma bind_err_Inl:
  "bind_err r f = Inl e \<Longrightarrow> r = Inl e \<or> (\<exists>v. r = Inr v \<and> f v = Inl e)"
  by (cases r) (simp_all add: bind_err_def)

lemma Byte_Inl: "Byte i = Inl e \<Longrightarrow> e = ValueError"
  by (simp add: Byte_def split: if_splits)

lemma append_Byte_Inl: "append_Byte v i = Inl e \<Longrightarrow> e = ValueError"
  by (auto simp: append_Byte_def dest!: bind_err_Inl Byte_Inl)

lemma Byte_each_Inl: "Byte_each xs = Inl e \<Longrightarrow> e = ValueError"
  by (induction xs) (auto dest!: bind_err_Inl Byte_Inl)

lemma to_bytes_little_Inl: "to_bytes_little v n sg = Inl e \<Longrightarrow> e = OverflowError"
  by (simp add: to_bytes_little_def split: if_splits)

lemma int_truediv_Inl: "int_truediv a b = Inl e \<Longrightarrow> e = ZeroDivisionError"
  by (simp add: int_truediv_def Let_def split: if_splits)

lemma index_list_Inl: "index_list xs i = Inl e \<Longrightarrow> e = IndexError"
  by (simp add: index_list_def split: if_splits)

lemma current_time_bytes_errors:
  assumes "current_time_bytes env = (Inl e, effs)"
  shows "\<not> declared_error e"
proof -
  from assms have "e = ValueError \<or> e = OverflowError"
    unfolding current_time_bytes_def Let_def
    by (auto split: sum.splits
        dest!: bind_err_Inl append_Byte_Inl Byte_each_Inl to_bytes_little_Inl)
  then show ?thesis by auto
qed

lemma local_time_information_bytes_errors:
  assumes "local_time_information_bytes env = (Inl e, effs)"
  shows "\<not> declared_error e"
proof -
  from assms
  have "e = ValueError \<or> e = OverflowError \<or> e = ZeroDivisionError \<or> e = IndexError"
    unfolding local_time_information_bytes_def Let_def timedelta_truediv_def
    by (auto split: sum.splits prod.splits
        dest!: bind_err_Inl Byte_Inl to_bytes_little_Inl int_truediv_Inl index_list_Inl)
  then show ?thesis by auto
qed

lemma getitem_absent: "k \<notin> fst ` set d \<Longrightarrow> getitem d k = Inl KeyError"
  by (simp add: getitem_def map_of_eq_None_iff [THEN iffD2])

subsection \<open>Rounding to 53 bits\<close>

lemma div_eqI:
  fixes a b k :: int
  assumes "0 < b" "k * b \<le> a" "a < (k + 1) * b"
  shows "a div b = k"
proof (rule int_div_pos_eq [of a b k "a - k * b"])
  show "a = b * k + (a - k * b)" by simp
  show "0 \<le> a - k * b" using assms(2) by simp
  show "a - k * b < b" using assms(3) by (simp add: algebra_simps)
qed

lemma div_bounds:
  fixes p B :: int
  assumes "0 < B" "lo * B \<le> p" "p < hi * B"
  shows "lo \<le> p div B \<and> p div B < hi"
proof -
  have "p = B * (p div B) + p mod B" by simp
  moreover have "0 \<le> p mod B" "p mod B < B" using assms(1) by simp_all
  ultimately have 1: "B * (p div B) \<le> p" and 2: "p < B * (p div B) + B" by linarith+
  have "lo \<le> p div B"
  proof (rule ccontr)
    assume "\<not> lo \<le> p div B"
    then have "p div B + 1 \<le> lo" by simp
    then have "(p div B + 1) * B \<le> lo * B" using assms(1) by (simp add: mult_right_mono)
    with 2 assms(2) show False by (simp add: algebra_simps)
  qed
  moreover have "p div B < hi"
  proof (rule ccontr)
    assume "\<not> p div B < hi"
    then have "hi \<le> p div B" by simp
    then have "hi * B \<le> (p div B) * B" using assms(1) by (simp add: mult_right_mono)
    with 1 assms(3) show False by (simp add: algebra_simps)
  qed
  ultimately show ?thesis ..
qed

lemma round53_rounds:
  assumes "0 < p" "bitlen p = 53 + int s"
  shows "\<exists>q. round53 p e = (q, e + int s) \<and> 2 * \<bar>q * 2 ^ s - p\<bar> \<le> 2 ^ s \<and>
             2 ^ 52 \<le> q \<and> q \<le> 2 ^ 53"
proof -
  from bitlen_bounds [OF assms(1)] assms(2)
  have lo: "2 ^ 52 * 2 ^ s \<le> p" and hi: "p < 2 ^ 53 * 2 ^ s"
    by (simp_all add: nat_add_distrib power_add nat_diff_distrib)
  show ?thesis
  proof (cases "s = 0")
    case True
    with assms lo hi show ?thesis by (simp add: round53_def)
  next
    case False
    define B :: int where "B = 2 ^ s"
    define h :: int where "h = 2 ^ (s - 1)"
    define q0 where "q0 = p div B"
    define r where "r = p mod B"
    define q where "q = (if h < r \<or> (r = h \<and> odd q0) then q0 + 1 else q0)"
    have B: "0 < B" "B = 2 * h"
      using False by (simp_all add: B_def h_def flip: power_Suc)
    have p: "p = q0 * B + r" "0 \<le> r" "r < B"
      using B(1) by (simp_all add: q0_def r_def)
    have q0: "2 ^ 52 \<le> q0 \<and> q0 < 2 ^ 53"
      unfolding q0_def using B(1) lo hi unfolding B_def by (intro div_bounds) simp_all
    have r53: "round53 p e = (q, e + int s)"
      using assms False
      by (simp add: round53_def Let_def q_def q0_def r_def B_def h_def)
    have "2 * \<bar>q * B - p\<bar> \<le> B"
    proof (cases "h < r \<or> (r = h \<and> odd q0)")
      case True
      then have "q = q0 + 1" by (auto simp: q_def)
      then have "q * B - p = B - r" by (simp add: p(1) algebra_simps)
      with True p B show ?thesis by auto
    next
      case False
      then have "q = q0" by (auto simp: q_def)
      then have "q * B - p = - r" by (simp add: p(1))
      with False p B show ?thesis by auto
    qed
    moreover have "2 ^ 52 \<le> q \<and> q \<le> 2 ^ 53"
      using q0 by (auto simp: q_def)
    ultimately show ?thesis using r53 unfolding B_def by blast
  qed
qed

lemma round53_times_256:
  assumes "2 ^ 52 \<le> q" "q \<le> 2 ^ 53"
  shows "\<exists>q' t. round53 (q * 256) e = (q', e + int t) \<and> q' * 2 ^ t = q * 256 \<and> t \<le> 9 \<and> 0 < q'"
proof (cases "q = 2 ^ 53")
  case True
  have "bitlen (2 ^ 53 * 256) = 62" by code_simp
  then have "round53 (q * 256) e = (2 ^ 52, e + int 9)"
    by (simp add: round53_def True Let_def)
  moreover have "(2::int) ^ 52 * 2 ^ 9 = q * 256" by (simp add: True)
  ultimately have "round53 (q * 256) e = (2 ^ 52, e + int 9) \<and> 2 ^ 52 * 2 ^ 9 = q * 256 \<and>
      (9::nat) \<le> 9 \<and> (0::int) < 2 ^ 52"
    by simp
  then show ?thesis by blast
next
  case False
  with assms have q: "0 < q" "q < 2 ^ 53" by simp_all
  have "bitlen q \<le> 53" using q by (simp add: bitlen_le_iff_power)
  moreover have "53 \<le> bitlen q" using assms(1) by (simp add: bitlen_ge_iff_power)
  ultimately have "bitlen q = 53" by simp
  then have "bitlen (q * 2 ^ 8) = 61" using q(1) by (simp only: bitlen_pow2)
  then have b: "bitlen (q * 256) = 61" by simp
  have "round53 (q * 256) e = (q, e + int 8)"
    using q(1) by (simp add: round53_def b Let_def)
  then have "round53 (q * 256) e = (q, e + int 8) \<and> q * 2 ^ 8 = q * 256 \<and> (8::nat) \<le> 9 \<and> 0 < q"
    using q(1) by simp
  then show ?thesis by blast
qed

lemma int_of_float_neg_exp:
  "0 < m \<Longrightarrow> int_of_float (m, - int n) = m div 2 ^ n"
  by (cases "n = 0") (simp_all add: int_of_float_def)


lemma fraction256_as_div:
  assumes "1 \<le> us" "us \<le> 999999"
  shows "\<exists>q s. s \<le> 19 \<and> 2 * \<bar>q * 2 ^ s - us * 4722366482869645\<bar> \<le> 2 ^ s \<and>
               us * 4722366482869645 < 2 ^ 53 * 2 ^ s \<and>
               fraction256 us = q div 2 ^ (64 - s)"
proof -
  define p where "p = us * 4722366482869645"
  have p: "2 ^ 52 \<le> p" "p < 2 ^ 72" "0 < p"
    using assms by (simp_all add: p_def)
  define s where "s = nat (bitlen p - 53)"
  have "53 \<le> bitlen p" using p(1) by (simp add: bitlen_ge_iff_power)
  moreover have "bitlen p \<le> 72" using p(2) by (simp add: bitlen_le_iff_power)
  ultimately have s: "bitlen p = 53 + int s" "s \<le> 19"
    by (simp_all add: s_def)
  from bitlen_bounds [OF p(3)] s(1) have hi: "p < 2 ^ 53 * 2 ^ s"
    by (simp add: nat_add_distrib power_add)
  from round53_rounds [OF p(3) s(1), of "- 72"]
  obtain q where q: "round53 p (- 72) = (q, - 72 + int s)" "2 * \<bar>q * 2 ^ s - p\<bar> \<le> 2 ^ s"
    "2 ^ 52 \<le> q" "q \<le> 2 ^ 53"
    by blast
  from round53_times_256 [OF q(3,4), of "- 72 + int s"]
  obtain q' t where t: "round53 (q * 256) (- 72 + int s) = (q', - 72 + int s + int t)"
    "q' * 2 ^ t = q * 256" "t \<le> 9" "0 < q'"
    by blast
  have us: "bitlen \<bar>us\<bar> \<le> 53"
    using assms by (simp add: bitlen_le_iff_power)
  have "bitlen 256 = 9" by code_simp
  then have f256: "float_of_int 256 = (256, 0)"
    by (simp add: float_of_int_def round53_def)
  have "float_mul (float_of_int us) float_1e_6 = (q, - 72 + int s)"
    using us q(1) by (simp add: float_mul_def float_of_int_def round53_def float_1e_6_def p_def)
  then have fm: "float_mul (float_mul (float_of_int us) float_1e_6) (float_of_int 256) =
             (q', - 72 + int s + int t)"
    using t(1) by (simp add: float_mul_def f256)
  have ex: "- 72 + int s + int t = - int (72 - s - t)"
    using s(2) t(3) by simp
  have "fraction256 us = int_of_float (q', - int (72 - s - t))"
    unfolding fraction256_def fm ex ..
  also have "\<dots> = q' div 2 ^ (72 - s - t)"
    using t(4) by (rule int_of_float_neg_exp)
  also have "\<dots> = (q' * 2 ^ t) div (2 ^ (72 - s - t) * 2 ^ t)"
    by simp
  also have "(2::int) ^ (72 - s - t) * 2 ^ t = 2 ^ (64 - s) * 256"
  proof -
    have "72 - s - t + t = 64 - s + 8" using s(2) t(3) by simp
    then have "(2::int) ^ (72 - s - t + t) = 2 ^ (64 - s + 8)" by simp
    then show ?thesis by (simp only: power_add) simp
  qed
  also have "(q' * 2 ^ t) div (2 ^ (64 - s) * 256) = q div 2 ^ (64 - s)"
    by (simp add: t(2))
  finally have "fraction256 us = q div 2 ^ (64 - s)" .
  with s(2) q(2) hi show ?thesis unfolding p_def by blast
qed

lemma fraction256_zero: "fraction256 0 = 0"
  by code_simp

lemma fraction256_eq:
  assumes "0 \<le> us" "us \<le> 999999"
  shows "fraction256 us = (us * 256) div 1000000"
proof (cases "us = 0")
  case True
  then show ?thesis by (simp add: fraction256_zero)
next
  case False
  with assms(1) have us: "1 \<le> us" by simp
  define k where "k = (us * 256) div 1000000"
  define \<rho> where "\<rho> = (us * 256) mod 1000000"
  have k: "us * 256 = 1000000 * k + \<rho>"
    unfolding k_def \<rho>_def by (rule mult_div_mod_eq [symmetric])
  have \<rho>: "0 \<le> \<rho>" "\<rho> \<le> 999999"
    using pos_mod_sign [of 1000000 "us * 256"] pos_mod_bound [of 1000000 "us * 256"]
    unfolding \<rho>_def by simp_all
  have k0: "0 \<le> k"
    unfolding k_def using us by (simp add: pos_imp_zdiv_nonneg_iff)
  from fraction256_as_div [OF us assms(2)]
  obtain q s where s: "s \<le> 19" and q: "2 * \<bar>q * 2 ^ s - us * 4722366482869645\<bar> \<le> 2 ^ s"
    and hi: "us * 4722366482869645 < 2 ^ 53 * 2 ^ s"
    and f: "fraction256 us = q div 2 ^ (64 - s)"
    by blast
  define B :: int where "B = 2 ^ s"
  define X where "X = q * B"
  have B: "0 < B" "B \<le> 524288"
    using power_increasing [of s 19 "2::int"] s by (simp_all add: B_def)
  have a: "2 * \<bar>X - us * 4722366482869645\<bar> \<le> B"
    using q unfolding X_def B_def .
  have X1: "2 * (us * 4722366482869645 - X) \<le> B"
    using a by (simp add: abs_if split: if_splits)
  have X2: "2 * (X - us * 4722366482869645) \<le> B"
    using a by (simp add: abs_if split: if_splits)
  have split: "2 ^ (64 - s) * B = 2 ^ 64"
    using s unfolding B_def by (simp flip: power_add)
  have kB: "c * 2 ^ (64 - s) * B = c * 2 ^ 64" for c :: int
    by (simp only: mult.assoc split)
  have "k * 2 ^ (64 - s) \<le> q"
  proof (rule ccontr)
    assume "\<not> k * 2 ^ (64 - s) \<le> q"
    then have "q + 1 \<le> k * 2 ^ (64 - s)" by simp
    then have "(q + 1) * B \<le> k * 2 ^ (64 - s) * B"
      using B(1) by (simp only: mult_right_mono less_imp_le)
    then have "(q + 1) * B \<le> k * 2 ^ 64"
      by (simp only: kB)
    then have "X + B \<le> k * 2 ^ 64"
      unfolding X_def by (simp add: algebra_simps)
    with X1 k \<rho>(1) us hi [folded B_def] show False by simp
  qed
  moreover have "q < (k + 1) * 2 ^ (64 - s)"
  proof (rule ccontr)
    assume "\<not> q < (k + 1) * 2 ^ (64 - s)"
    then have "(k + 1) * 2 ^ (64 - s) * B \<le> q * B"
      using B(1) by (simp only: mult_right_mono less_imp_le not_less)
    then have "(k + 1) * 2 ^ 64 \<le> X"
      unfolding X_def by (simp only: kB)
    with X2 k \<rho>(2) B(2) k0 show False by simp
  qed
  ultimately have "q div 2 ^ (64 - s) = k"
    by (intro div_eqI) simp_all
  with f show ?thesis by (simp only: k_def)
qed

lemma fraction256_range:
  assumes "0 \<le> us" "us \<le> 999999"
  shows "0 \<le> fraction256 us \<and> fraction256 us \<le> 255"
proof -
  have "0 * 1000000 \<le> us * 256" "us * 256 < 256 * 1000000" using assms by simp_all
  then have "0 \<le> (us * 256) div 1000000 \<and> (us * 256) div 1000000 < 256"
    by (intro div_bounds) simp_all
  then show ?thesis by (simp only: fraction256_eq [OF assms]) simp
qed

subsection \<open>The quotient of two ints, truncated\<close>

lemma round53_minus: "round53 (- m) e = (- fst (round53 m e), snd (round53 m e))"
  by (simp add: round53_def Let_def)

lemma int_of_float_minus: "int_of_float (- m, e) = - int_of_float (m, e)"
  by (simp add: int_of_float_def)

lemma rounded_quotient:
  fixes A d Q m0 q P h I :: int
  assumes d: "0 < d" and A: "A < 2 ^ 53"
    and P: "0 < P" and h: "2 \<le> h" "even h"
    and Qd: "2 * (Q * d) \<le> A * (P * (2 * h))"
    and st: "m0 = 2 * Q \<or> m0 = 2 * Q + 1"
    and ex: "m0 = 2 * Q \<longrightarrow> 2 * (Q * d) = A * (P * (2 * h))"
    and I: "A < (I + 1) * d"
    and mI: "I * (P * (2 * h)) \<le> m0" "m0 < (I + 1) * (P * (2 * h))"
    and mb: "2 ^ 52 * (2 * h) \<le> m0"
    and q: "2 * \<bar>q * (2 * h) - m0\<bar> \<le> 2 * h"
  shows "I * P \<le> q \<and> q < (I + 1) * P"
proof
  define S where "S = 2 * h"
  define J where "J = P * S"
  have S: "0 < S" "4 \<le> S" using h by (simp_all add: S_def)
  have J: "0 < J" using P S by (simp add: J_def)
  have q1: "q * S - m0 \<le> h" and q2: "m0 - q * S \<le> h"
    using q by (simp_all add: S_def abs_if split: if_splits)
  show "I * P \<le> q"
  proof (rule ccontr)
    assume "\<not> I * P \<le> q"
    then have "q + 1 \<le> I * P" by simp
    then have "(q + 1) * S \<le> I * P * S"
      using S(1) by (simp only: mult_right_mono less_imp_le)
    then have "q * S + S \<le> I * J"
      by (simp add: J_def algebra_simps)
    with mI(1) q2 h show False
      by (simp add: J_def S_def)
  qed
  show "q < (I + 1) * P"
  proof (rule ccontr)
    assume "\<not> q < (I + 1) * P"
    then have "(I + 1) * P \<le> q" by simp
    then have "(I + 1) * P * S \<le> q * S"
      using S(1) by (simp only: mult_right_mono less_imp_le)
    then have T: "(I + 1) * J \<le> q * S"
      by (simp add: J_def algebra_simps)
    with q1 have m: "(I + 1) * J - h \<le> m0" by simp
    have key: "((I + 1) * J - h) * d \<le> A * J"
    proof (cases "m0 = 2 * Q")
      case True
      have "((I + 1) * J - h) * d \<le> m0 * d"
        using m d by (simp only: mult_right_mono less_imp_le)
      also have "\<dots> = A * J"
        using ex True by (simp add: J_def S_def algebra_simps)
      finally show ?thesis .
    next
      case False
      with st have odd: "m0 = 2 * Q + 1" by simp
      have "even ((I + 1) * J - h)"
        using h(2) by (simp add: J_def S_def)
      then obtain X where X: "(I + 1) * J - h = 2 * X" by (elim evenE)
      with m odd have "X \<le> Q" by simp
      then have "X * d \<le> Q * d"
        using d by (simp only: mult_right_mono less_imp_le)
      then have "((I + 1) * J - h) * d \<le> 2 * (Q * d)"
        unfolding X by simp
      also have "\<dots> \<le> A * J"
        using Qd by (simp add: J_def S_def)
      finally show ?thesis .
    qed
    have "A + 1 \<le> (I + 1) * d" using I by simp
    then have "(A + 1) * J \<le> (I + 1) * d * J"
      using J by (simp only: mult_right_mono less_imp_le)
    then have "A * J + J \<le> ((I + 1) * J) * d"
      by (simp add: algebra_simps)
    with key have "J \<le> h * d"
      by (simp add: algebra_simps)
    then have "(2 * P) * h \<le> d * h"
      by (simp add: J_def S_def algebra_simps)
    then have dP: "2 * P \<le> d"
      using h(1) by (simp only: mult_le_cancel_right)
    have Q2: "2 ^ 52 * S - 1 \<le> 2 * Q"
      using mb st by (auto simp: S_def)
    have pos: "0 \<le> 2 ^ 52 * S - 1" using S(1) by simp
    have "(2 ^ 52 * S - 1) * (2 * P) \<le> (2 ^ 52 * S - 1) * d"
      using dP pos by (rule mult_left_mono)
    also have "\<dots> \<le> (2 * Q) * d"
      using Q2 d by (simp only: mult_right_mono less_imp_le)
    also have "\<dots> \<le> A * J"
      using Qd by (simp add: J_def S_def)
    also have "\<dots> \<le> (2 ^ 53 - 1) * J"
      using A J by (intro mult_right_mono) simp_all
    finally have "(2 ^ 52 * S - 1) * (2 * P) \<le> (2 ^ 53 - 1) * (P * S)"
      by (simp only: J_def)
    then have "P * S \<le> P * 2"
      by (simp add: algebra_simps)
    then have "S \<le> 2"
      using P by (simp only: mult_le_cancel_left_pos)
    with S(2) show False by simp
  qed
qed

lemma truediv_mantissa:
  fixes A d :: int and j :: nat
  assumes A: "0 < A" "A < 2 ^ 53" and d: "0 < d"
    and j: "int j = 55 - (bitlen A - bitlen d)"
  defines "m0 \<equiv> 2 * (A * 2 ^ j div d) + (if A * 2 ^ j mod d = 0 then 0 else 1)"
  shows "\<exists>q t. round53 m0 (- int j - 1) = (q, - int t) \<and> 0 < q \<and> q div 2 ^ t = A div d \<and> 0 < m0"
proof -
  define n where "n = A * 2 ^ j"
  define Q where "Q = n div d"
  define R where "R = n mod d"
  have m0: "m0 = 2 * Q + (if R = 0 then 0 else 1)"
    by (simp add: m0_def Q_def R_def n_def)
  have n: "n = Q * d + R" "0 \<le> R" "R < d"
    using d by (simp_all add: Q_def R_def)
  \<comment> \<open>the size of the quotient\<close>
  have bA: "1 \<le> bitlen A" "bitlen A \<le> 53"
    using A by (simp_all add: bitlen_ge_iff_power bitlen_le_iff_power)
  have bd: "1 \<le> bitlen d"
    using d by (simp add: bitlen_ge_iff_power)
  from bitlen_bounds [OF A(1)] have "2 ^ nat (bitlen A - 1) \<le> A" by simp
  then have "2 ^ nat (bitlen A - 1) * 2 ^ j \<le> A * 2 ^ j"
    by (simp only: mult_right_mono zero_le_power zero_le_numeral)
  moreover have "nat (bitlen A - 1) + j = 54 + nat (bitlen d)"
    using j bA bd by simp
  then have "(2::int) ^ nat (bitlen A - 1) * 2 ^ j = 2 ^ 54 * 2 ^ nat (bitlen d)"
    by (simp only: power_add [symmetric])
  moreover from bitlen_bounds [OF d] have "d < 2 ^ nat (bitlen d)" by simp
  ultimately have lo: "2 ^ 54 * d \<le> n"
    unfolding n_def by simp
  have hi: "n < 2 ^ 53 * 2 ^ j"
    unfolding n_def using A(2) by simp
  have "(2 ^ 53 * 2 ^ j) * 1 \<le> (2 ^ 53 * 2 ^ j) * d"
    using d by (intro mult_left_mono) simp_all
  then have "2 ^ 53 * 2 ^ j \<le> (2 ^ 53 * 2 ^ j) * d"
    by (simp only: mult_1_right)
  with hi have hi': "n < (2 ^ 53 * 2 ^ j) * d" by (rule less_le_trans)
  have Qb: "2 ^ 54 \<le> Q \<and> Q < 2 ^ 53 * 2 ^ j"
    unfolding Q_def using d lo hi' by (rule div_bounds)
  have mpos: "2 ^ 55 \<le> m0" and mhi: "m0 < 2 ^ 54 * 2 ^ j"
    using Qb by (simp_all add: m0)
  \<comment> \<open>the shift\<close>
  have "56 \<le> bitlen m0"
    using mpos by (simp add: bitlen_ge_iff_power)
  moreover have "m0 < 2 ^ nat (54 + int j)"
    using mhi by (simp add: nat_add_distrib power_add)
  then have "bitlen m0 \<le> 54 + int j"
    by (simp add: bitlen_le_iff_power)
  ultimately obtain s where s: "bitlen m0 = 53 + int s" "3 \<le> s" "s \<le> j + 1"
    using nonneg_int_cases [of "bitlen m0 - 53"] by (auto simp: algebra_simps)
  define t where "t = j + 1 - s"
  have jt: "j + 1 = t + s" using s(3) by (simp add: t_def)
  define h :: int where "h = 2 ^ (s - 1)"
  define P :: int where "P = 2 ^ t"
  have h: "2 \<le> h" "even h" "(2::int) ^ s = 2 * h"
  proof -
    obtain s' where s': "s = Suc (Suc s')" using s(2) by (cases s; cases "s - 1") auto
    have "(1::int) \<le> 2 ^ s'" by simp
    then show "2 \<le> h" "even h" "(2::int) ^ s = 2 * h"
      by (simp_all add: h_def s')
  qed
  have P: "0 < P" by (simp add: P_def)
  have J: "P * (2 * h) = 2 * 2 ^ j"
  proof -
    have "P * (2 * h) = (2::int) ^ (t + s)" by (simp add: P_def h(3) [symmetric] power_add)
    then show ?thesis by (simp add: jt [symmetric])
  qed
  have m0pos: "0 < m0" using mpos by simp
  from bitlen_bounds [OF m0pos] s(1) have mb: "2 ^ 52 * (2 * h) \<le> m0"
    by (simp add: nat_add_distrib power_add h(3))
  obtain q where q: "round53 m0 (- int j - 1) = (q, - int j - 1 + int s)"
    "2 * \<bar>q * 2 ^ s - m0\<bar> \<le> 2 ^ s" "2 ^ 52 \<le> q"
    using round53_rounds [OF m0pos s(1), of "- int j - 1"] by blast
  \<comment> \<open>the whole part of the exact quotient\<close>
  define I where "I = A div d"
  have "A = d * I + A mod d" by (simp add: I_def)
  moreover have "A mod d < d" using d by simp
  ultimately have I: "A < (I + 1) * d" by (simp add: algebra_simps)
  have "m0 div (2 * 2 ^ j) = (m0 div 2) div 2 ^ j"
    by (rule zdiv_zmult2_eq) simp
  also have "m0 div 2 = Q" by (simp add: m0)
  also have "Q div 2 ^ j = n div (d * 2 ^ j)"
    unfolding Q_def by (rule zdiv_zmult2_eq [symmetric]) simp
  also have "\<dots> = I" by (simp add: n_def I_def)
  finally have mdiv: "m0 div (P * (2 * h)) = I" by (simp only: J)
  have Jpos: "0 < P * (2 * h)" using P h(1) by simp
  have "m0 = (P * (2 * h)) * I + m0 mod (P * (2 * h))"
    unfolding mdiv [symmetric] by simp
  moreover have "0 \<le> m0 mod (P * (2 * h))" "m0 mod (P * (2 * h)) < P * (2 * h)"
    using Jpos by simp_all
  ultimately have mI: "I * (P * (2 * h)) \<le> m0" "m0 < (I + 1) * (P * (2 * h))"
    by (simp_all add: algebra_simps)
  have Qd: "2 * (Q * d) \<le> A * (P * (2 * h))"
    unfolding J using n by (simp add: n_def)
  have st: "m0 = 2 * Q \<or> m0 = 2 * Q + 1" by (simp add: m0)
  have ex: "m0 = 2 * Q \<longrightarrow> 2 * (Q * d) = A * (P * (2 * h))"
    unfolding J using n by (simp add: n_def m0 split: if_splits)
  have q': "2 * \<bar>q * (2 * h) - m0\<bar> \<le> 2 * h"
    using q(2) unfolding h(3) .
  from rounded_quotient [OF d A(2) P h(1,2) Qd st ex I mI mb q']
  have "I * P \<le> q" "q < (I + 1) * P" by simp_all
  with P have "q div P = I" by (intro div_eqI)
  moreover have "- int j - 1 + int s = - int t" using jt by simp
  moreover have "0 < q" using q(3) by (rule less_le_trans [rotated]) simp
  ultimately show ?thesis
    using q(1) m0pos by (simp add: P_def I_def)
qed

lemma int_truediv_trunc:
  assumes "b \<noteq> 0" "\<bar>a\<bar> < 2 ^ 53"
  shows "\<exists>x. int_truediv a b = Inr x \<and> int_of_float x = sgn a * sgn b * (\<bar>a\<bar> div \<bar>b\<bar>)"
proof (cases "a = 0")
  case True
  with assms(1) show ?thesis by (simp add: int_truediv_def int_of_float_def)
next
  case False
  define A where "A = \<bar>a\<bar>"
  define d where "d = \<bar>b\<bar>"
  have A: "0 < A" "A < 2 ^ 53" and d: "0 < d"
    using False assms by (simp_all add: A_def d_def)
  have "bitlen A \<le> 53" "1 \<le> bitlen d"
    using A d by (simp_all add: bitlen_ge_iff_power bitlen_le_iff_power)
  then have "0 \<le> 55 - (bitlen A - bitlen d)" by simp
  then obtain j where j': "55 - (bitlen A - bitlen d) = int j"
    by (rule nonneg_int_cases)
  then have j: "int j = 55 - (bitlen A - bitlen d)" by simp
  define m0 where "m0 = 2 * (A * 2 ^ j div d) + (if A * 2 ^ j mod d = 0 then 0 else 1)"
  from truediv_mantissa [OF A d j]
  obtain q t where q: "round53 m0 (- int j - 1) = (q, - int t)" "0 < q" "q div 2 ^ t = A div d"
    unfolding m0_def by blast
  have k: "55 - (bitlen \<bar>a\<bar> - bitlen \<bar>b\<bar>) = int j"
    using j' by (simp only: A_def d_def)
  have "int_truediv a b =
        Inr (round53 (sgn a * sgn b *
               (2 * ((\<bar>a\<bar> * 2 ^ j) div \<bar>b\<bar>) +
                (if (\<bar>a\<bar> * 2 ^ j) mod \<bar>b\<bar> = 0 then 0 else 1)))
             (- int j - 1))"
    using assms(1) False unfolding int_truediv_def Let_def k by simp
  then have td: "int_truediv a b = Inr (round53 (sgn a * sgn b * m0) (- int j - 1))"
    unfolding m0_def A_def d_def .
  have pos: "int_of_float (q, - int t) = A div d"
    using q(2,3) by (simp add: int_of_float_neg_exp)
  have "sgn a * sgn b = 1 \<or> sgn a * sgn b = - 1"
    using False assms(1) by (auto simp: sgn_if)
  then show ?thesis
  proof
    assume 1: "sgn a * sgn b = 1"
    have "int_truediv a b = Inr (q, - int t)"
      unfolding td 1 using q(1) by simp
    with pos show ?thesis unfolding 1 A_def d_def by simp
  next
    assume 1: "sgn a * sgn b = - 1"
    have "round53 (- 1 * m0) (- int j - 1) = (- q, - int t)"
      using round53_minus [of m0 "- int j - 1"] q(1) by simp
    then have "int_truediv a b = Inr (- q, - int t)"
      unfolding td 1 by simp
    with pos show ?thesis unfolding 1 A_def d_def by (simp add: int_of_float_minus)
  qed
qed

subsection \<open>The Current Time payload\<close>

lemma fraction256_half: "fraction256 500000 = 128"
  by (simp add: fraction256_eq)

lemma current_time_bytes_friday:
  assumes "now env = \<lparr>year = 2024, month = 3, day = 15, hour = 14, minute = 30, second = 45,
                       microsecond = 500000\<rparr>"
  shows "current_time_bytes env =
           (Inr [0xE8, 0x07, 3, 15, 14, 30, 45, 5, 128, 1], [Log DEBUG ''CT: ''])"
  by (simp add: current_time_bytes_def assms to_bytes_little_def bind_err_def Byte_def
      append_Byte_def isoweekday_def toordinal_def days_before_year_def days_before_month_def
      DAYS_IN_MONTH_def is_leap_def fraction256_half Let_def numeral_2_eq_2)

text \<open>
  C1. When the local time is 2024-03-15T14:30:45.500000 and the options name the
  device, \<open>CurrentTimeCharacteristic.ReadValue\<close> returns the ten bytes
  0xE8, 0x07, 3, 15, 14, 30, 45, 5, 128, 1: the year 2024 in 16 bits, low byte first,
  month, day, hour, minute, second, the ISO weekday (that day is a Friday, 5), the
  fraction byte 128 and the adjust reason 1.
\<close>

theorem ReadValue_current_time_example:
  assumes "now env = \<lparr>year = 2024, month = 3, day = 15, hour = 14, minute = 30, second = 45,
                       microsecond = 500000\<rparr>"
    and "getitem options ''device'' = Inr device"
  shows "fst (CurrentTimeCharacteristic_ReadValue env self options) =
           Inr [0xE8, 0x07, 3, 15, 14, 30, 45, 5, 128, 1] \<and> isoweekday (now env) = 5"
  using assms(2)
  by (simp add: CurrentTimeCharacteristic_ReadValue_def current_time_bytes_friday [OF assms(1)])
     (simp add: assms(1) isoweekday_def toordinal_def days_before_year_def days_before_month_def
      DAYS_IN_MONTH_def is_leap_def)

theorem ReadValue_current_time_example_witness:
  "fst (CurrentTimeCharacteristic_ReadValue
     \<lparr>now = \<lparr>year = 2024, month = 3, day = 15, hour = 14, minute = 30, second = 45,
              microsecond = 500000\<rparr>,
      timezone = - 3600, altzone = - 7200, tm_isdst = False\<rparr>
     (fst (CurrentTimeCharacteristic_init 0 (Service_init 0 ''1805'' True) []))
     [(''device'', ObjectPath ''/org/bluez/hci0/dev_00_11_22_33_44_55'')])
   = Inr [0xE8, 0x07, 3, 15, 14, 30, 45, 5, 128, 1]"
  using ReadValue_current_time_example
    [of "\<lparr>now = \<lparr>year = 2024, month = 3, day = 15, hour = 14, minute = 30, second = 45,
                  microsecond = 500000\<rparr>,
          timezone = - 3600, altzone = - 7200, tm_isdst = False\<rparr>"
        "[(''device'', ObjectPath ''/org/bluez/hci0/dev_00_11_22_33_44_55'')]"
        "ObjectPath ''/org/bluez/hci0/dev_00_11_22_33_44_55''"
        "fst (CurrentTimeCharacteristic_init 0 (Service_init 0 ''1805'' True) [])"]
  by (simp add: getitem_def)

lemma bind_err_Inr: "bind_err r f = Inr y \<longleftrightarrow> (\<exists>x. r = Inr x \<and> f x = Inr y)"
  by (cases r) (simp_all add: bind_err_def)

lemma Byte_Inr: "Byte i = Inr b \<longleftrightarrow> 0 \<le> i \<and> i \<le> 255 \<and> b = word_of_int i"
  by (auto simp: Byte_def)

lemma append_Byte_Inr:
  "append_Byte v i = Inr v' \<longleftrightarrow> 0 \<le> i \<and> i \<le> 255 \<and> v' = v @ [word_of_int i]"
  by (auto simp: append_Byte_def bind_err_Inr Byte_Inr)

lemma year_bytes_bind:
  "bind_err (to_bytes_little y 2 False) (\<lambda>ys. bind_err (Byte_each ys) f) =
     (if 0 \<le> y \<and> y < 65536 then f [word_of_int (y mod 256), word_of_int (y div 256)]
      else Inl OverflowError)"
proof (cases "0 \<le> y \<and> y < 65536")
  case True
  then have "0 * 256 \<le> y" "y < 256 * 256" by simp_all
  then have d: "0 \<le> y div 256 \<and> y div 256 < 256"
    by (intro div_bounds) simp_all
  then have hi: "y div 256 mod 256 = y div 256" by simp
  have "0 \<le> y mod 256" "y mod 256 < 256" by simp_all
  then have b1: "Byte (y mod 256) = Inr (word_of_int (y mod 256))"
    by (simp add: Byte_def)
  have b2: "Byte (y div 256) = Inr (word_of_int (y div 256))"
    using d by (simp add: Byte_def)
  have "to_bytes_little y 2 False = Inr [y mod 256, y div 256]"
    using True by (simp add: to_bytes_little_def numeral_2_eq_2 hi)
  with True show ?thesis
    by (simp add: bind_err_def b1 b2)
next
  case False
  then have "to_bytes_little y 2 False = Inl OverflowError"
    by (auto simp: to_bytes_little_def)
  then show ?thesis using False by (auto simp: bind_err_def)
qed

lemma isoweekday_range: "1 \<le> isoweekday dt \<and> isoweekday dt \<le> 7"
proof -
  have "0 \<le> toordinal dt mod 7" "toordinal dt mod 7 < 7" by simp_all
  then show ?thesis by (auto simp: isoweekday_def Let_def)
qed

lemma append_Byte_ok: "0 \<le> i \<Longrightarrow> i \<le> 255 \<Longrightarrow> append_Byte v i = Inr (v @ [word_of_int i])"
  by (simp add: append_Byte_Inr)

lemma bind_err_Inr_left: "bind_err (Inr x) f = f x"
  by (simp add: bind_err_def)

lemma current_time_bytes_Inr:
  "fst (current_time_bytes env) = Inr v \<longleftrightarrow>
     (let dt = now env in
      0 \<le> year dt \<and> year dt < 65536 \<and> 0 \<le> month dt \<and> month dt \<le> 255 \<and>
      0 \<le> day dt \<and> day dt \<le> 255 \<and> 0 \<le> hour dt \<and> hour dt \<le> 255 \<and>
      0 \<le> minute dt \<and> minute dt \<le> 255 \<and> 0 \<le> second dt \<and> second dt \<le> 255 \<and>
      0 \<le> fraction256 (microsecond dt) \<and> fraction256 (microsecond dt) \<le> 255 \<and>
      v = [word_of_int (year dt mod 256), word_of_int (year dt div 256),
           word_of_int (month dt), word_of_int (day dt), word_of_int (hour dt),
           word_of_int (minute dt), word_of_int (second dt), word_of_int (isoweekday dt),
           word_of_int (fraction256 (microsecond dt)), 1])"
  (is "?l \<longleftrightarrow> ?r")
proof
  assume ?l
  then show ?r
    unfolding current_time_bytes_def Let_def year_bytes_bind
    by (auto simp: bind_err_Inr append_Byte_Inr split: sum.splits if_splits)
next
  assume ?r
  then show ?l
    using isoweekday_range [of "now env"]
    by (simp add: current_time_bytes_def Let_def year_bytes_bind append_Byte_ok
        bind_err_Inr_left)
qed

lemma valid_datetime_bytes:
  assumes "valid_datetime (now env)"
  shows "\<exists>v. fst (current_time_bytes env) = Inr v"
proof -
  let ?dt = "now env"
  from assms have m: "1 \<le> month ?dt" "month ?dt \<le> 12"
    and d: "1 \<le> day ?dt" "day ?dt \<le> days_in_month (year ?dt) (month ?dt)"
    by (simp_all add: valid_datetime_def)
  from m have "nat (month ?dt - 1) < length DAYS_IN_MONTH"
    by (simp add: DAYS_IN_MONTH_def)
  then have "DAYS_IN_MONTH ! nat (month ?dt - 1) \<in> set DAYS_IN_MONTH"
    by (rule nth_mem)
  then have "DAYS_IN_MONTH ! nat (month ?dt - 1) \<le> 31"
    by (auto simp: DAYS_IN_MONTH_def)
  then have "days_in_month (year ?dt) (month ?dt) \<le> 31"
    by (simp add: days_in_month_def)
  with d have "day ?dt \<le> 255" by simp
  moreover have "0 \<le> fraction256 (microsecond ?dt) \<and> fraction256 (microsecond ?dt) \<le> 255"
    using assms by (intro fraction256_range) (simp_all add: valid_datetime_def)
  ultimately show ?thesis
    using assms by (simp add: current_time_bytes_Inr valid_datetime_def Let_def)
qed

text \<open>
  C2. When the microseconds of the local time are between 0 and 999999, the fraction
  that the program computes in floating point, \<open>int((microsecond * 1e-6) * 256)\<close>, is
  the whole part of microsecond * 256 / 1000000 and lies between 0 and 255; it is byte
  9 of every payload (index 8), which has ten bytes, and a valid \<open>datetime\<close> always
  gives a payload.
\<close>

theorem fraction_byte_is_floor:
  assumes "0 \<le> microsecond (now env)" and "microsecond (now env) \<le> 999999"
  shows "fraction256 (microsecond (now env)) = (microsecond (now env) * 256) div 1000000 \<and>
         0 \<le> fraction256 (microsecond (now env)) \<and>
         fraction256 (microsecond (now env)) \<le> 255 \<and>
         (\<forall>v. fst (current_time_bytes env) = Inr v \<longrightarrow>
              length v = 10 \<and> uint (v ! 8) = (microsecond (now env) * 256) div 1000000) \<and>
         (valid_datetime (now env) \<longrightarrow> (\<exists>v. fst (current_time_bytes env) = Inr v))"
proof -
  note eq = fraction256_eq [OF assms]
  note range = fraction256_range [OF assms]
  have "uint (word_of_int (fraction256 (microsecond (now env))) :: byte) =
        fraction256 (microsecond (now env))"
    using range by (simp add: uint_word_of_int take_bit_eq_mod)
  then have "\<forall>v. fst (current_time_bytes env) = Inr v \<longrightarrow>
              length v = 10 \<and> uint (v ! 8) = (microsecond (now env) * 256) div 1000000"
    by (auto simp: current_time_bytes_Inr Let_def eq)
  with eq range valid_datetime_bytes [of env] show ?thesis by simp
qed

theorem fraction_byte_is_floor_witness:
  "fraction256 999999 = 255 \<and>
   (\<exists>v. fst (current_time_bytes
            \<lparr>now = \<lparr>year = 2024, month = 3, day = 15, hour = 14, minute = 30, second = 45,
                     microsecond = 999999\<rparr>,
             timezone = - 3600, altzone = - 7200, tm_isdst = False\<rparr>) = Inr v \<and>
        uint (v ! 8) = 255)"
  using fraction_byte_is_floor
    [of "\<lparr>now = \<lparr>year = 2024, month = 3, day = 15, hour = 14, minute = 30, second = 45,
                  microsecond = 999999\<rparr>,
          timezone = - 3600, altzone = - 7200, tm_isdst = False\<rparr>"]
  by (simp add: valid_datetime_def days_in_month_def DAYS_IN_MONTH_def) metis

subsection \<open>The notifying flag\<close>

lemma call_CurrentTime_flag:
  assumes "call env (CurrentTime c) m = (r, obj', effs)"
  shows "\<exists>c'. obj' = CurrentTime c' \<and>
           (notifying c' \<noteq> notifying c \<longrightarrow>
              (m = StartNotify \<and> \<not> notifying c) \<or> (m = StopNotify \<and> notifying c))"
  using assms
  by (cases m)
    (auto simp: outcome_def CurrentTimeCharacteristic_ReadValue_def Characteristic_WriteValue_def
      CurrentTimeCharacteristic_StartNotify_def CurrentTimeCharacteristic_StopNotify_def
      notify_time_def notify_current_time_def add_descriptor_def
      split: prod.splits sum.splits if_splits)

text \<open>
  C4. A new \<open>CurrentTimeCharacteristic\<close> is not notifying. \<open>StartNotify\<close> on an
  object that is not notifying returns without error and without any effect, and the
  object is notifying afterwards; on one that is notifying it returns without error,
  leaves the object as it was and only logs a warning. \<open>StopNotify\<close> is the mirror
  image. Whatever method is called on the object, if the flag differs afterwards then
  the call was \<open>StartNotify\<close> on an object that was not notifying or \<open>StopNotify\<close> on
  one that was.
\<close>

theorem notifying_state_machine:
  "notifying (fst (CurrentTimeCharacteristic_init index service kwargs)) = False \<and>
   (\<not> notifying c \<longrightarrow>
      CurrentTimeCharacteristic_StartNotify c = (Inr (), c\<lparr>notifying := True\<rparr>, []) \<and>
      CurrentTimeCharacteristic_StopNotify c =
        (Inr (), c, [Log WARNING ''Not notifying, nothing to do''])) \<and>
   (notifying c \<longrightarrow>
      CurrentTimeCharacteristic_StopNotify c = (Inr (), c\<lparr>notifying := False\<rparr>, []) \<and>
      CurrentTimeCharacteristic_StartNotify c =
        (Inr (), c, [Log WARNING ''Already notifying, nothing to do''])) \<and>
   (call env (CurrentTime c) m = (r, obj', effs) \<longrightarrow>
      (\<exists>c'. obj' = CurrentTime c' \<and>
         (notifying c' \<noteq> notifying c \<longrightarrow>
            (m = StartNotify \<and> \<not> notifying c) \<or> (m = StopNotify \<and> notifying c))))"
proof -
  have "notifying (fst (CurrentTimeCharacteristic_init index service kwargs)) = False"
    by (simp add: CurrentTimeCharacteristic_init_def Characteristic.defs
        CurrentTimeCharacteristic.defs)
  then show ?thesis
    using call_CurrentTime_flag [of env c m r obj' effs]
    by (simp add: CurrentTimeCharacteristic_StartNotify_def
        CurrentTimeCharacteristic_StopNotify_def)
qed

theorem notifying_state_machine_witness:
  "\<not> notifying (fst (CurrentTimeCharacteristic_init 0 (Service_init 0 ''1805'' True) [])) \<and>
   notifying (fst (snd (CurrentTimeCharacteristic_StartNotify
     (fst (CurrentTimeCharacteristic_init 0 (Service_init 0 ''1805'' True) []))))) \<and>
   \<not> notifying (fst (snd (CurrentTimeCharacteristic_StopNotify
     (fst (snd (CurrentTimeCharacteristic_StartNotify
       (fst (CurrentTimeCharacteristic_init 0 (Service_init 0 ''1805'' True) []))))))))"
  using notifying_state_machine
    [of 0 "Service_init 0 ''1805'' True" "[]"
        "fst (CurrentTimeCharacteristic_init 0 (Service_init 0 ''1805'' True) [])"]
    notifying_state_machine
    [of 0 "Service_init 0 ''1805'' True" "[]"
        "(fst (CurrentTimeCharacteristic_init 0 (Service_init 0 ''1805'' True) []))
           \<lparr>notifying := True\<rparr>"]
  by simp

subsection \<open>GetAll\<close>

lemma Service_GetAll_eq:
  "Service_GetAll s i =
     (if i \<noteq> GATT_SERVICE_IFACE then Inl InvalidArgsException
      else Inr (snd (hd (Service_get_properties s))))"
  by (simp add: Service_GetAll_def getitem_def Service_get_properties_def)

lemma Characteristic_GetAll_eq:
  "Characteristic_GetAll c i =
     (if i \<noteq> GATT_CHRC_IFACE then Inl InvalidArgsException
      else Inr (snd (hd (Characteristic_get_properties c))))"
  by (simp add: Characteristic_GetAll_def getitem_def Characteristic_get_properties_def)

lemma Descriptor_GetAll_eq:
  "Descriptor_GetAll d i =
     (if i \<noteq> GATT_DESC_IFACE then Inl InvalidArgsException
      else Inr (snd (hd (Descriptor_get_properties d))))"
  by (simp add: Descriptor_GetAll_def getitem_def Descriptor_get_properties_def)

text \<open>
  C6. The properties of a service, a characteristic or a descriptor are filed under
  exactly one interface name. \<open>GetAll\<close> raises \<open>InvalidArgsException\<close> if and only if
  the name it is asked for differs from that one, and for that name it returns the
  node's properties.
\<close>

theorem GetAll_InvalidArgs_iff:
  "\<exists>iface p. node_get_properties n = [(iface, p)] \<and>
     (node_GetAll n i = Inl InvalidArgsException \<longleftrightarrow> i \<noteq> iface) \<and>
     (i = iface \<longrightarrow> node_GetAll n i = Inr p)"
proof (cases n)
  case (ServiceNode s)
  then show ?thesis
    by (simp add: Service_GetAll_eq) (simp add: Service_get_properties_def)
next
  case (ChrcNode c)
  then show ?thesis
    by (cases c)
      (simp_all add: Characteristic_GetAll_eq, simp_all add: Characteristic_get_properties_def)
next
  case (DescNode d)
  then show ?thesis
    by (simp add: Descriptor_GetAll_eq) (simp add: Descriptor_get_properties_def)
qed

theorem GetAll_InvalidArgs_iff_witness:
  "node_GetAll (ServiceNode (Service_init 0 ''1805'' True)) ''org.bluez.GattCharacteristic1''
     = Inl InvalidArgsException \<and>
   node_GetAll (ServiceNode (Service_init 0 ''1805'' True)) ''org.bluez.GattService1''
     = Inr [(''UUID'', Str ''1805''), (''Primary'', Boolean True),
            (''Characteristics'', ObjectPathArray [])]"
  using GetAll_InvalidArgs_iff
    [of "ServiceNode (Service_init 0 ''1805'' True)" "''org.bluez.GattCharacteristic1''"]
    GetAll_InvalidArgs_iff
    [of "ServiceNode (Service_init 0 ''1805'' True)" "''org.bluez.GattService1''"]
  by (simp add: Service_get_properties_def GATT_SERVICE_IFACE_def Service_init_def
      get_characteristic_paths_def)

subsection \<open>Default operations\<close>

text \<open>
  C7. Calling \<open>ReadValue\<close>, \<open>WriteValue\<close>, \<open>StartNotify\<close> or \<open>StopNotify\<close> on a
  characteristic whose class has no body of its own for it raises
  \<open>NotSupportedException\<close>, and so do \<open>ReadValue\<close> and \<open>WriteValue\<close> on a descriptor
  (the class \<open>Descriptor\<close> declares no other operation and has no subclass).
\<close>

theorem default_operations_NotSupported:
  "(gatt_operation m \<and> \<not> overrides obj m \<longrightarrow>
      fst (call env obj m) = Some NotSupportedException) \<and>
   (desc_operation dm \<longrightarrow> fst (desc_call d dm) = Some NotSupportedException)"
proof
  show "gatt_operation m \<and> \<not> overrides obj m \<longrightarrow>
          fst (call env obj m) = Some NotSupportedException"
    by (cases "(env, obj, m)" rule: call.cases)
      (simp_all add: outcome_def raised_def Characteristic_ReadValue_def
        Characteristic_WriteValue_def Characteristic_StartNotify_def
        Characteristic_StopNotify_def)
  show "desc_operation dm \<longrightarrow> fst (desc_call d dm) = Some NotSupportedException"
    by (cases dm) (simp_all add: raised_def Descriptor_ReadValue_def Descriptor_WriteValue_def)
qed

theorem default_operations_NotSupported_witness:
  "fst (call \<lparr>now = \<lparr>year = 2024, month = 3, day = 15, hour = 14, minute = 30, second = 45,
                     microsecond = 500000\<rparr>,
             timezone = - 3600, altzone = - 7200, tm_isdst = False\<rparr>
          (LocalTimeInformation
             (LocalTimeInformationCharacteristic_init 1 (Service_init 0 ''1805'' True) []))
          StartNotify) = Some NotSupportedException \<and>
   fst (desc_call
          (Descriptor_init 0 ''2901'' [''read'']
             (Characteristic_init 0 ''2a2B'' [''read''] (Service_init 0 ''1805'' True)))
          (Desc_ReadValue [])) = Some NotSupportedException"
  using default_operations_NotSupported
    [of StartNotify
        "LocalTimeInformation
           (LocalTimeInformationCharacteristic_init 1 (Service_init 0 ''1805'' True) [])"
        "\<lparr>now = \<lparr>year = 2024, month = 3, day = 15, hour = 14, minute = 30, second = 45,
                  microsecond = 500000\<rparr>,
          timezone = - 3600, altzone = - 7200, tm_isdst = False\<rparr>"
        "Desc_ReadValue []"
        "Descriptor_init 0 ''2901'' [''read'']
           (Characteristic_init 0 ''2a2B'' [''read''] (Service_init 0 ''1805'' True))"]
  by simp

subsection \<open>Start-up without a GATT manager\<close>

text \<open>
  C8. When no object on the bus has the GATT manager interface, \<open>Server.__init__\<close>
  logs an error and returns before \<open>mainloop\<close> is assigned; \<open>run\<close> then raises
  \<open>AttributeError\<close>, which nothing catches. The main loop is not entered.
\<close>

theorem no_gatt_manager_uncaught_AttributeError:
  "main [(''/org/bluez'', [(''org.bluez.AgentManager1'', [])])] None =
     (Inl AttributeError, [Log ERROR ''GattManager1 interface not found''])"
  by (simp add: main_def Server_init_def run_def GATT_MANAGER_IFACE_def)

subsection \<open>Options without the key device\<close>

lemma local_time_information_bytes_example:
  "local_time_information_bytes
     \<lparr>now = \<lparr>year = 2024, month = 3, day = 15, hour = 14, minute = 30, second = 45,
              microsecond = 500000\<rparr>,
      timezone = - 3600, altzone = - 7200, tm_isdst = False\<rparr> =
   (Inr [4, 4], [Log DEBUG ''LTI: TZ offset =  (); DST offset =  ()''])"
  by code_simp

text \<open>
  C10. When the options of \<open>ReadValue\<close> have no key \<open>device\<close>, the call on the
  Current Time and on the Local Time Information characteristic raises an exception
  that is none of the five the program declares. When the payload bytes could be
  computed, the exception is \<open>KeyError\<close>, and the only effects of the call are those
  of computing the payload.
\<close>

theorem ReadValue_without_device_KeyError:
  assumes "''device'' \<notin> fst ` set options"
  shows "(\<exists>e. fst (CurrentTimeCharacteristic_ReadValue env c options) = Inl e \<and>
              \<not> declared_error e) \<and>
         (\<exists>e. fst (LocalTimeInformationCharacteristic_ReadValue env l options) = Inl e \<and>
              \<not> declared_error e) \<and>
         (\<forall>v effs. current_time_bytes env = (Inr v, effs) \<longrightarrow>
            CurrentTimeCharacteristic_ReadValue env c options = (Inl KeyError, c, effs)) \<and>
         (\<forall>v effs. local_time_information_bytes env = (Inr v, effs) \<longrightarrow>
            LocalTimeInformationCharacteristic_ReadValue env l options =
              (Inl KeyError, l, effs))"
proof -
  note k = getitem_absent [OF assms]
  have a: "\<exists>e. fst (CurrentTimeCharacteristic_ReadValue env c options) = Inl e \<and>
               \<not> declared_error e"
  proof (cases "current_time_bytes env")
    case (Pair r effs)
    then show ?thesis
      using current_time_bytes_errors [of env _ effs]
      by (cases r) (auto simp: CurrentTimeCharacteristic_ReadValue_def k)
  qed
  have b: "\<exists>e. fst (LocalTimeInformationCharacteristic_ReadValue env l options) = Inl e \<and>
               \<not> declared_error e"
  proof (cases "local_time_information_bytes env")
    case (Pair r effs)
    then show ?thesis
      using local_time_information_bytes_errors [of env _ effs]
      by (cases r) (auto simp: LocalTimeInformationCharacteristic_ReadValue_def k)
  qed
  show ?thesis
    using a b
    by (simp add: CurrentTimeCharacteristic_ReadValue_def
        LocalTimeInformationCharacteristic_ReadValue_def k)
qed

theorem ReadValue_without_device_KeyError_witness:
  "CurrentTimeCharacteristic_ReadValue
     \<lparr>now = \<lparr>year = 2024, month = 3, day = 15, hour = 14, minute = 30, second = 45,
              microsecond = 500000\<rparr>,
      timezone = - 3600, altzone = - 7200, tm_isdst = False\<rparr>
     (fst (CurrentTimeCharacteristic_init 0 (Service_init 0 ''1805'' True) [])) [] =
   (Inl KeyError, fst (CurrentTimeCharacteristic_init 0 (Service_init 0 ''1805'' True) []),
    [Log DEBUG ''CT: '']) \<and>
   LocalTimeInformationCharacteristic_ReadValue
     \<lparr>now = \<lparr>year = 2024, month = 3, day = 15, hour = 14, minute = 30, second = 45,
              microsecond = 500000\<rparr>,
      timezone = - 3600, altzone = - 7200, tm_isdst = False\<rparr>
     (LocalTimeInformationCharacteristic_init 1 (Service_init 0 ''1805'' True) []) [] =
   (Inl KeyError, LocalTimeInformationCharacteristic_init 1 (Service_init 0 ''1805'' True) [],
    [Log DEBUG ''LTI: TZ offset =  (); DST offset =  ()''])"
  using ReadValue_without_device_KeyError
    [of "[]"
        "\<lparr>now = \<lparr>year = 2024, month = 3, day = 15, hour = 14, minute = 30, second = 45,
                  microsecond = 500000\<rparr>,
          timezone = - 3600, altzone = - 7200, tm_isdst = False\<rparr>"
        "fst (CurrentTimeCharacteristic_init 0 (Service_init 0 ''1805'' True) [])"
        "LocalTimeInformationCharacteristic_init 1 (Service_init 0 ''1805'' True) []"]
    current_time_bytes_friday
    [of "\<lparr>now = \<lparr>year = 2024, month = 3, day = 15, hour = 14, minute = 30, second = 45,
                  microsecond = 500000\<rparr>,
          timezone = - 3600, altzone = - 7200, tm_isdst = False\<rparr>"]
    local_time_information_bytes_example
  by simp

subsection \<open>Decimal strings\<close>

declare str_nat.simps [simp del]

lemma of_char_digit_char: "d < 10 \<Longrightarrow> of_char (digit_char d) = 48 + d"
  by (simp add: digit_char_def)

lemma digits_value_str_nat: "digits_value (str_nat n) = n"
proof (induction n rule: str_nat.induct)
  case (1 n)
  show ?case
  proof (cases "n < 10")
    case True
    then show ?thesis
      by (subst str_nat.simps) (simp add: digits_value_def of_char_digit_char)
  next
    case False
    with 1 have "digits_value (str_nat (n div 10)) = n div 10" by simp
    with False show ?thesis
      by (subst str_nat.simps) (simp add: digits_value_def of_char_digit_char)
  qed
qed

lemma str_nat_inj: "str_nat m = str_nat n \<Longrightarrow> m = n"
  by (metis digits_value_str_nat)

lemma str_nat_chars: "c \<in> set (str_nat n) \<Longrightarrow> \<exists>d<10. c = digit_char d"
proof (induction n rule: str_nat.induct)
  case (1 n)
  show ?case
  proof (cases "n < 10")
    case True
    with 1(2) show ?thesis by (subst (asm) str_nat.simps) auto
  next
    case False
    with 1(2) have "c \<in> set (str_nat (n div 10)) \<or> c = digit_char (n mod 10)"
      by (subst (asm) str_nat.simps) auto
    with 1(1) False show ?thesis by (auto intro: exI [of _ "n mod 10"])
  qed
qed

lemma str_nat_not_Nil: "str_nat n \<noteq> []"
  by (subst str_nat.simps) simp

lemma digit_char_neq:
  assumes "d < 10"
  shows "digit_char d \<noteq> CHR ''/'' \<and> digit_char d \<noteq> CHR ''-''"
proof -
  have e: "of_char (digit_char d) = 48 + d" using assms by (rule of_char_digit_char)
  have "of_char (digit_char d) \<noteq> (of_char CHR ''/'' :: nat)" unfolding e by simp
  moreover have "of_char (digit_char d) \<noteq> (of_char CHR ''-'' :: nat)" unfolding e by simp
  ultimately show ?thesis by auto
qed

lemma str_nat_no_slash: "CHR ''/'' \<notin> set (str_nat n)"
proof
  assume "CHR ''/'' \<in> set (str_nat n)"
  then obtain d where "d < 10" "CHR ''/'' = digit_char d"
    using str_nat_chars by blast
  then show False using digit_char_neq [of d] by simp
qed

lemma str_int_0: "str_int 0 = ''0''"
  by code_simp

lemma str_int_1: "str_int 1 = ''1''"
  by code_simp

lemma str_int_no_slash: "CHR ''/'' \<notin> set (str_int i)"
  by (simp add: str_int_def str_nat_no_slash)

lemma str_int_inj: 
  assumes "str_int i = str_int j" shows "i = j"
proof -
  have neg: "hd (str_nat n) \<noteq> CHR ''-''" for n
    using str_nat_chars [of "hd (str_nat n)" n] str_nat_not_Nil [of n] digit_char_neq
    by (metis hd_in_set)
  show ?thesis
  proof (cases "i < 0")
    case True
    show ?thesis
    proof (cases "j < 0")
      case True
      with \<open>i < 0\<close> assms have "nat (- i) = nat (- j)"
        by (auto simp: str_int_def dest: str_nat_inj)
      with True \<open>i < 0\<close> show ?thesis by simp
    next
      case False
      with \<open>i < 0\<close> assms have "hd (str_nat (nat j)) = CHR ''-''"
        by (simp add: str_int_def) (metis list.sel(1))
      with neg show ?thesis by blast
    qed
  next
    case False
    show ?thesis
    proof (cases "j < 0")
      case True
      with False assms have "hd (str_nat (nat i)) = CHR ''-''"
        by (simp add: str_int_def) 
      with neg show ?thesis by blast
    next
      case False
      with \<open>\<not> i < 0\<close> assms have "nat i = nat j"
        by (auto simp: str_int_def dest: str_nat_inj)
      with False \<open>\<not> i < 0\<close> show ?thesis by simp
    qed
  qed
qed

text \<open>Two strings without a slash, each followed by nothing or by a slash.\<close>

lemma split_at_slash:
  assumes "CHR ''/'' \<notin> set a" "CHR ''/'' \<notin> set b"
    and "r = [] \<or> hd r = CHR ''/''" "t = [] \<or> hd t = CHR ''/''"
    and "a @ r = b @ t"
  shows "a = b \<and> r = t"
  using assms
proof (induction a arbitrary: b)
  case Nil
  then show ?case by (cases b) auto
next
  case (Cons x a)
  show ?case
  proof (cases b)
    case Nil
    with Cons.prems show ?thesis by auto
  next
    case (Cons y b')
    with Cons.prems Cons.IH [of b'] show ?thesis by auto
  qed
qed

subsection \<open>GetManagedObjects\<close>

text \<open>The methods that the traversal calls return the fields.\<close>

lemma chrc_get_path_field: "chrc_get_path c = path_field c"
  by (cases c) (simp_all add: Characteristic_get_path_def)

lemma chrc_get_descriptors_field: "chrc_get_descriptors c = descriptors_field c"
  by (cases c) (simp_all add: get_descriptors_def)

lemma Descriptor_get_path_field: "Descriptor_get_path = desc_path"
  by (rule ext) (simp add: Descriptor_get_path_def)

lemma chrc_paths_getters:
  "chrc_paths c = chrc_get_path c # map Descriptor_get_path (chrc_get_descriptors c)"
  by (simp add: chrc_paths_def chrc_get_path_field chrc_get_descriptors_field
      Descriptor_get_path_field)

lemma service_paths_getters:
  "service_paths s = Service_get_path s # concat (map chrc_paths (get_characteristics s))"
  by (simp add: service_paths_def Service_get_path_def get_characteristics_def)

lemma chrc_entries_getters:
  "chrc_entries c =
     (chrc_get_path c, chrc_get_properties c) #
     map (\<lambda>d. (Descriptor_get_path d, Descriptor_get_properties d)) (chrc_get_descriptors c)"
  by (simp add: chrc_entries_def chrc_get_path_field chrc_get_descriptors_field
      Descriptor_get_path_field)

lemma service_entries_getters:
  "service_entries s =
     (Service_get_path s, Service_get_properties s) #
     concat (map chrc_entries (get_characteristics s))"
  by (simp add: service_entries_def Service_get_path_def get_characteristics_def)

lemma map_fst_chrc_entries: "map fst (chrc_entries c) = chrc_paths c"
  by (simp add: chrc_entries_getters chrc_paths_getters comp_def)

lemma map_fst_service_entries: "map fst (service_entries s) = service_paths s"
  by (simp add: service_entries_getters service_paths_getters map_concat comp_def map_fst_chrc_entries)

lemma map_fst_node_entries: "map fst (node_entries a) = node_paths a"
  by (simp add: node_entries_def node_paths_def map_concat comp_def map_fst_service_entries)

lemma update_new_key: "k \<notin> fst ` set al \<Longrightarrow> AList.update k v al = al @ [(k, v)]"
  by (induction al) auto

lemma keys_descs_loop:
  "fst ` set (descs_loop ds r) = fst ` set r \<union> set (map Descriptor_get_path ds)"
  by (induction ds arbitrary: r) (auto simp: dom_update)

lemma keys_chrcs_loop:
  "fst ` set (chrcs_loop cs r) = fst ` set r \<union> set (concat (map chrc_paths cs))"
  by (induction cs arbitrary: r) (auto simp: keys_descs_loop dom_update chrc_paths_getters)

lemma keys_services_loop:
  "fst ` set (services_loop ss r) = fst ` set r \<union> set (concat (map service_paths ss))"
  by (induction ss arbitrary: r) (auto simp: keys_chrcs_loop dom_update service_paths_getters)

lemma distinct_update_iff:
  "distinct (map fst (AList.update k v al)) = distinct (map fst al)"
  by (auto simp: update_keys)

lemma distinct_descs_loop: "distinct (map fst (descs_loop ds r)) = distinct (map fst r)"
  by (induction ds arbitrary: r) (simp_all add: distinct_update_iff)

lemma distinct_chrcs_loop: "distinct (map fst (chrcs_loop cs r)) = distinct (map fst r)"
  by (induction cs arbitrary: r) (simp_all add: distinct_descs_loop distinct_update_iff)

lemma distinct_services_loop: "distinct (map fst (services_loop ss r)) = distinct (map fst r)"
  by (induction ss arbitrary: r) (simp_all add: distinct_chrcs_loop distinct_update_iff)

lemma descs_loop_fresh:
  "distinct (map Descriptor_get_path ds) \<Longrightarrow> fst ` set r \<inter> set (map Descriptor_get_path ds) = {} \<Longrightarrow>
   descs_loop ds r = r @ map (\<lambda>d. (Descriptor_get_path d, Descriptor_get_properties d)) ds"
proof (induction ds arbitrary: r)
  case Nil
  then show ?case by simp
next
  case (Cons d ds)
  from Cons.prems have new: "Descriptor_get_path d \<notin> fst ` set r" by auto
  have "descs_loop (d # ds) r =
        descs_loop ds (r @ [(Descriptor_get_path d, Descriptor_get_properties d)])"
    by (simp add: update_new_key [OF new])
  also have "\<dots> = (r @ [(Descriptor_get_path d, Descriptor_get_properties d)]) @
       map (\<lambda>d. (Descriptor_get_path d, Descriptor_get_properties d)) ds"
    using Cons.prems by (intro Cons.IH) auto
  finally show ?case by simp
qed

lemma chrcs_loop_fresh:
  "distinct (concat (map chrc_paths cs)) \<Longrightarrow> fst ` set r \<inter> set (concat (map chrc_paths cs)) = {} \<Longrightarrow>
   chrcs_loop cs r = r @ concat (map chrc_entries cs)"
proof (induction cs arbitrary: r)
  case Nil
  then show ?case by simp
next
  case (Cons c cs)
  let ?ds = "chrc_get_descriptors c"
  from Cons.prems have new: "chrc_get_path c \<notin> fst ` set r"
    by (auto simp: chrc_paths_getters)
  have d: "descs_loop ?ds (r @ [(chrc_get_path c, chrc_get_properties c)]) =
        (r @ [(chrc_get_path c, chrc_get_properties c)]) @
        map (\<lambda>d. (Descriptor_get_path d, Descriptor_get_properties d)) ?ds"
    using Cons.prems by (intro descs_loop_fresh) (auto simp: chrc_paths_getters)
  have e: "r @ [(chrc_get_path c, chrc_get_properties c)] @
        map (\<lambda>d. (Descriptor_get_path d, Descriptor_get_properties d)) ?ds = r @ chrc_entries c"
    by (simp add: chrc_entries_getters)
  have "chrcs_loop (c # cs) r = chrcs_loop cs (r @ chrc_entries c)"
    using d e by (simp add: update_new_key [OF new])
  also have "\<dots> = (r @ chrc_entries c) @ concat (map chrc_entries cs)"
  proof (intro Cons.IH)
    show "distinct (concat (map chrc_paths cs))" using Cons.prems by simp
    have "fst ` set (chrc_entries c) = set (chrc_paths c)"
      by (metis map_fst_chrc_entries set_map)
    then show "fst ` set (r @ chrc_entries c) \<inter> set (concat (map chrc_paths cs)) = {}"
      using Cons.prems by (auto simp: image_Un)
  qed
  finally show ?case by simp
qed

lemma services_loop_fresh:
  "distinct (concat (map service_paths ss)) \<Longrightarrow>
   fst ` set r \<inter> set (concat (map service_paths ss)) = {} \<Longrightarrow>
   services_loop ss r = r @ concat (map service_entries ss)"
proof (induction ss arbitrary: r)
  case Nil
  then show ?case by simp
next
  case (Cons s ss)
  let ?cs = "get_characteristics s"
  from Cons.prems have new: "Service_get_path s \<notin> fst ` set r"
    by (auto simp: service_paths_getters)
  have d: "chrcs_loop ?cs (r @ [(Service_get_path s, Service_get_properties s)]) =
        (r @ [(Service_get_path s, Service_get_properties s)]) @ concat (map chrc_entries ?cs)"
    using Cons.prems by (intro chrcs_loop_fresh) (auto simp: service_paths_getters)
  have e: "r @ [(Service_get_path s, Service_get_properties s)] @ concat (map chrc_entries ?cs)
        = r @ service_entries s"
    by (simp add: service_entries_getters)
  have "services_loop (s # ss) r = services_loop ss (r @ service_entries s)"
    using d e by (simp add: update_new_key [OF new])
  also have "\<dots> = (r @ service_entries s) @ concat (map service_entries ss)"
  proof (intro Cons.IH)
    show "distinct (concat (map service_paths ss))" using Cons.prems by simp
    have "fst ` set (service_entries s) = set (service_paths s)"
      by (metis map_fst_service_entries set_map)
    then show "fst ` set (r @ service_entries s) \<inter> set (concat (map service_paths ss)) = {}"
      using Cons.prems by (auto simp: image_Un)
  qed
  finally show ?case by simp
qed

lemma map_of_descs_loop:
  "map_of (descs_loop ds r) =
     map_of (rev (map (\<lambda>d. (desc_path d, Descriptor_get_properties d)) ds) @ r)"
  by (induction ds arbitrary: r) (simp_all add: update_conv' Descriptor_get_path_def)

lemma map_of_chrcs_loop:
  "map_of (chrcs_loop cs r) = map_of (rev (concat (map chrc_entries cs)) @ r)"
proof (induction cs arbitrary: r)
  case Nil
  then show ?case by simp
next
  case (Cons c cs)
  have "map_of (descs_loop (chrc_get_descriptors c)
                  (AList.update (chrc_get_path c) (chrc_get_properties c) r)) =
        map_of (rev (chrc_entries c) @ r)"
    by (simp add: map_of_descs_loop update_conv' chrc_entries_def chrc_get_path_field
        chrc_get_descriptors_field)
  then show ?case
    by (simp add: Cons.IH)
qed

lemma map_of_services_loop:
  "map_of (services_loop ss r) = map_of (rev (concat (map service_entries ss)) @ r)"
proof (induction ss arbitrary: r)
  case Nil
  then show ?case by simp
next
  case (Cons s ss)
  have "map_of (chrcs_loop (get_characteristics s)
                  (AList.update (Service_get_path s) (Service_get_properties s) r)) =
        map_of (rev (service_entries s) @ r)"
    by (simp add: map_of_chrcs_loop update_conv' service_entries_def Service_get_path_def
        get_characteristics_def)
  then show ?case
    by (simp add: Cons.IH)
qed

text \<open>
  C5. The keys of the mapping that \<open>GetManagedObjects\<close> returns are exactly the paths
  held by the services, characteristics and descriptors of the tree, and no key occurs
  twice. Under each key stand the properties of the node with that path, of the last
  one in the order of the traversal if several nodes have it. When the paths of the
  nodes are pairwise different, the mapping is the list of the nodes' entries in the
  order of the traversal, one entry for each node. The call stores nothing: the
  object after it is the object before it, and a call made after \<open>add_service\<close> on
  that object has the keys of before and the paths of the new service's nodes.
\<close>

theorem GetManagedObjects_keys:
  "snd (GetManagedObjects a) = a \<and>
   set (map fst (fst (GetManagedObjects a))) = set (node_paths a) \<and>
   distinct (map fst (fst (GetManagedObjects a))) \<and>
   map_of (fst (GetManagedObjects a)) = map_of (rev (node_entries a)) \<and>
   (distinct (node_paths a) \<longrightarrow> fst (GetManagedObjects a) = node_entries a) \<and>
   set (map fst (fst (GetManagedObjects (add_service (snd (GetManagedObjects a)) s)))) =
     set (node_paths a) \<union> set (service_paths s)"
proof -
  have "distinct (node_paths a) \<longrightarrow> fst (GetManagedObjects a) = node_entries a"
    using services_loop_fresh [of "app_services a" "[]"]
    by (simp add: GetManagedObjects_def node_entries_def node_paths_def)
  moreover have "map_of (fst (GetManagedObjects a)) = map_of (rev (node_entries a))"
    using map_of_services_loop [of "app_services a" "[]"]
    by (simp add: GetManagedObjects_def node_entries_def)
  ultimately show ?thesis
    using keys_services_loop [of "app_services a" "[]"]
      keys_services_loop [of "app_services a @ [s]" "[]"]
    by (simp add: GetManagedObjects_def node_paths_def distinct_services_loop add_service_def)
qed

theorem GetManagedObjects_keys_witness:
  "fst (GetManagedObjects
     (add_service \<lparr>app_path = ''/'', app_services = []\<rparr>
        (add_characteristic (Service_init 0 ''1805'' True)
           (Plain (add_descriptor
              (Characteristic_init 0 ''2a2B'' [''read''] (Service_init 0 ''1805'' True))
              (Descriptor_init 0 ''2901'' [''read'']
                 (Characteristic_init 0 ''2a2B'' [''read''] (Service_init 0 ''1805'' True)))))))) =
     [(''/org/bluez/example/service0'',
       [(''org.bluez.GattService1'',
         [(''UUID'', Str ''1805''), (''Primary'', Boolean True),
          (''Characteristics'', ObjectPathArray [''/org/bluez/example/service0/char0''])])]),
      (''/org/bluez/example/service0/char0'',
       [(''org.bluez.GattCharacteristic1'',
         [(''Service'', ObjectPath ''/org/bluez/example/service0''), (''UUID'', Str ''2a2B''),
          (''Flags'', StrArray [''read'']),
          (''Descriptors'', ObjectPathArray [''/org/bluez/example/service0/char0/desc0''])])]),
      (''/org/bluez/example/service0/char0/desc0'',
       [(''org.bluez.GattDescriptor1'',
         [(''Characteristic'', ObjectPath ''/org/bluez/example/service0/char0''),
          (''UUID'', Str ''2901''), (''Flags'', StrArray [''read''])])])] \<and>
   fst (GetManagedObjects (fst (Application_init [(''notify_period'', None)]))) =
     [(''/org/bluez/example/service0'',
       [(''org.bluez.GattService1'',
         [(''UUID'', Str ''1805''), (''Primary'', Boolean True),
          (''Characteristics'',
           ObjectPathArray [''/org/bluez/example/service0/char0'',
                            ''/org/bluez/example/service0/char1''])])]),
      (''/org/bluez/example/service0/char0'',
       [(''org.bluez.GattCharacteristic1'',
         [(''Service'', ObjectPath ''/org/bluez/example/service0''), (''UUID'', Str ''2a2B''),
          (''Flags'', StrArray [''read'', ''notify'']),
          (''Descriptors'', ObjectPathArray [])])]),
      (''/org/bluez/example/service0/char1'',
       [(''org.bluez.GattCharacteristic1'',
         [(''Service'', ObjectPath ''/org/bluez/example/service0''), (''UUID'', Str ''2a0f''),
          (''Flags'', StrArray [''read'']),
          (''Descriptors'', ObjectPathArray [])])])]"
proof -
  let ?d = "add_service \<lparr>app_path = ''/'', app_services = []\<rparr>
        (add_characteristic (Service_init 0 ''1805'' True)
           (Plain (add_descriptor
              (Characteristic_init 0 ''2a2B'' [''read''] (Service_init 0 ''1805'' True))
              (Descriptor_init 0 ''2901'' [''read'']
                 (Characteristic_init 0 ''2a2B'' [''read''] (Service_init 0 ''1805'' True))))))"
  let ?a = "fst (Application_init [(''notify_period'', None)])"
  have d: "node_entries ?d =
     [(''/org/bluez/example/service0'',
       [(''org.bluez.GattService1'',
         [(''UUID'', Str ''1805''), (''Primary'', Boolean True),
          (''Characteristics'', ObjectPathArray [''/org/bluez/example/service0/char0''])])]),
      (''/org/bluez/example/service0/char0'',
       [(''org.bluez.GattCharacteristic1'',
         [(''Service'', ObjectPath ''/org/bluez/example/service0''), (''UUID'', Str ''2a2B''),
          (''Flags'', StrArray [''read'']),
          (''Descriptors'', ObjectPathArray [''/org/bluez/example/service0/char0/desc0''])])]),
      (''/org/bluez/example/service0/char0/desc0'',
       [(''org.bluez.GattDescriptor1'',
         [(''Characteristic'', ObjectPath ''/org/bluez/example/service0/char0''),
          (''UUID'', Str ''2901''), (''Flags'', StrArray [''read''])])])]"
    by (simp add: Characteristic_init_def Service_init_def Descriptor_init_def add_service_def
        add_characteristic_def add_descriptor_def node_entries_def service_entries_def
        chrc_entries_def Service_get_properties_def Characteristic_get_properties_def
        Descriptor_get_properties_def get_characteristic_paths_def get_descriptor_paths_def
        Characteristic_get_path_def Descriptor_get_path_def PATH_BASE_def str_int_0
        GATT_SERVICE_IFACE_def GATT_CHRC_IFACE_def GATT_DESC_IFACE_def)
  have e: "node_entries ?a =
     [(''/org/bluez/example/service0'',
       [(''org.bluez.GattService1'',
         [(''UUID'', Str ''1805''), (''Primary'', Boolean True),
          (''Characteristics'',
           ObjectPathArray [''/org/bluez/example/service0/char0'',
                            ''/org/bluez/example/service0/char1''])])]),
      (''/org/bluez/example/service0/char0'',
       [(''org.bluez.GattCharacteristic1'',
         [(''Service'', ObjectPath ''/org/bluez/example/service0''), (''UUID'', Str ''2a2B''),
          (''Flags'', StrArray [''read'', ''notify'']),
          (''Descriptors'', ObjectPathArray [])])]),
      (''/org/bluez/example/service0/char1'',
       [(''org.bluez.GattCharacteristic1'',
         [(''Service'', ObjectPath ''/org/bluez/example/service0''), (''UUID'', Str ''2a0f''),
          (''Flags'', StrArray [''read'']),
          (''Descriptors'', ObjectPathArray [])])])]"
    by (simp add: Application_init_def CurrentTimeService_init_def
        CurrentTimeCharacteristic_init_def LocalTimeInformationCharacteristic_init_def
        Characteristic_init_def Service_init_def add_service_def add_characteristic_def
        node_entries_def service_entries_def chrc_entries_def
        Characteristic_get_path_def Characteristic.defs CurrentTimeCharacteristic.defs
        Service_get_properties_def Characteristic_get_properties_def
        get_characteristic_paths_def get_descriptor_paths_def
        PATH_BASE_def str_int_0 str_int_1 GATT_SERVICE_IFACE_def GATT_CHRC_IFACE_def
        getitem_def Let_def)
  have "distinct (map fst (node_entries ?d))"
    unfolding d by simp
  then have "distinct (node_paths ?d)"
    by (simp only: map_fst_node_entries)
  with GetManagedObjects_keys [of ?d, THEN conjunct2, THEN conjunct2, THEN conjunct2,
      THEN conjunct2, THEN conjunct1]
  have 1: "fst (GetManagedObjects ?d) = node_entries ?d"
    by blast
  have "distinct (map fst (node_entries ?a))"
    unfolding e by simp
  then have "distinct (node_paths ?a)"
    by (simp only: map_fst_node_entries)
  with GetManagedObjects_keys [of ?a, THEN conjunct2, THEN conjunct2, THEN conjunct2,
      THEN conjunct2, THEN conjunct1]
  have 2: "fst (GetManagedObjects ?a) = node_entries ?a"
    by blast
  show ?thesis
    unfolding 1 2 d e by simp
qed

subsection \<open>Object paths\<close>

lemma desc_paths_built:
  "list_all2 (desc_built p) ds ks \<Longrightarrow>
   map Descriptor_get_path ds = map (\<lambda>k. p @ ''/desc'' @ str_int k) ks"
  by (induction rule: list_all2_induct) (simp_all add: desc_built_def)

lemma chrc_paths_built:
  assumes "chrc_built p c jx"
  shows "chrc_paths c = chrc_index_paths p jx"
proof -
  from assms have q: "chrc_get_path c = p @ ''/char'' @ str_int (fst jx)"
    and ds: "list_all2 (desc_built (chrc_get_path c)) (chrc_get_descriptors c) (snd jx)"
    unfolding chrc_built_def by blast+
  have "map Descriptor_get_path (chrc_get_descriptors c) =
        map (\<lambda>k. chrc_get_path c @ ''/desc'' @ str_int k) (snd jx)"
    using ds by (rule desc_paths_built)
  then show ?thesis
    unfolding chrc_paths_getters chrc_index_paths_def q by simp
qed

lemma chrcs_paths_built:
  "list_all2 (chrc_built p) cs js \<Longrightarrow>
   concat (map chrc_paths cs) = concat (map (chrc_index_paths p) js)"
  by (induction rule: list_all2_induct) (simp_all add: chrc_paths_built)

lemma service_paths_built:
  assumes "service_built s ix"
  shows "service_paths s = service_index_paths ix"
proof -
  from assms have q: "Service_get_path s = PATH_BASE @ str_int (fst ix)"
    and cs: "list_all2 (chrc_built (Service_get_path s)) (get_characteristics s) (snd ix)"
    unfolding service_built_def by blast+
  have "concat (map chrc_paths (get_characteristics s)) =
        concat (map (chrc_index_paths (Service_get_path s)) (snd ix))"
    using cs by (rule chrcs_paths_built)
  then show ?thesis
    unfolding service_paths_getters service_index_paths_def q by simp
qed

lemma node_paths_built:
  "app_built a ixs \<Longrightarrow> node_paths a = concat (map service_index_paths ixs)"
proof -
  have "list_all2 service_built ss ixs \<Longrightarrow>
        concat (map service_paths ss) = concat (map service_index_paths ixs)" for ss
    by (induction rule: list_all2_induct) (simp_all add: service_paths_built)
  then show "app_built a ixs \<Longrightarrow> node_paths a = concat (map service_index_paths ixs)"
    by (simp add: app_built_def node_paths_def)
qed

lemma below_disjoint:
  assumes "x \<in> below p i" "x \<in> below p j"
  shows "i = j"
proof -
  from assms(1) obtain r where r: "x = p @ str_int i @ r" "r = [] \<or> hd r = CHR ''/''"
    unfolding below_def by blast
  from assms(2) obtain t where t: "x = p @ str_int j @ t" "t = [] \<or> hd t = CHR ''/''"
    unfolding below_def by blast
  from r(1) t(1) have "str_int i @ r = str_int j @ t" by simp
  then have "str_int i = str_int j"
    using split_at_slash [of "str_int i" "str_int j" r t] r(2) t(2)
    by (simp add: str_int_no_slash)
  then show ?thesis by (rule str_int_inj)
qed

lemma chrc_index_paths_below:
  "x \<in> set (chrc_index_paths p jx) \<Longrightarrow> x \<in> below (p @ ''/char'') (fst jx)"
  by (auto simp: chrc_index_paths_def below_def)

lemma distinct_chrc_index_paths:
  assumes "distinct (snd jx)"
  shows "distinct (chrc_index_paths p jx)"
proof -
  have "inj_on (\<lambda>k. (p @ ''/char'' @ str_int (fst jx)) @ ''/desc'' @ str_int k) (set (snd jx))"
    by (auto simp: inj_on_def dest: str_int_inj)
  with assms show ?thesis
    by (auto simp: chrc_index_paths_def distinct_map)
qed

lemma distinct_chrcs_index_paths:
  assumes "distinct (map fst js)" "\<forall>jx \<in> set js. distinct (snd jx)"
  shows "distinct (concat (map (chrc_index_paths p) js))"
  using assms
proof (induction js)
  case Nil
  then show ?case by simp
next
  case (Cons jx js)
  have "set (chrc_index_paths p jx) \<inter> set (concat (map (chrc_index_paths p) js)) = {}"
  proof (rule ccontr)
    assume "\<not> ?thesis"
    then obtain x jx' where "x \<in> set (chrc_index_paths p jx)" "jx' \<in> set js"
      "x \<in> set (chrc_index_paths p jx')"
      by auto
    then have "fst jx = fst jx'"
      by (blast dest: chrc_index_paths_below below_disjoint)
    with \<open>jx' \<in> set js\<close> Cons.prems(1) show False by auto
  qed
  with Cons show ?case by (simp add: distinct_chrc_index_paths)
qed

lemma service_index_paths_below:
  "x \<in> set (service_index_paths ix) \<Longrightarrow> x \<in> below PATH_BASE (fst ix)"
  by (auto simp: service_index_paths_def chrc_index_paths_def below_def)

lemma distinct_service_index_paths:
  assumes "distinct (map fst (snd ix))" "\<forall>jx \<in> set (snd ix). distinct (snd jx)"
  shows "distinct (service_index_paths ix)"
proof -
  have "PATH_BASE @ str_int (fst ix) \<notin>
          set (concat (map (chrc_index_paths (PATH_BASE @ str_int (fst ix))) (snd ix)))"
    by (auto simp: chrc_index_paths_def)
  with assms show ?thesis
    by (simp add: service_index_paths_def distinct_chrcs_index_paths)
qed

lemma distinct_services_index_paths:
  assumes "siblings_distinct ixs"
  shows "distinct (concat (map service_index_paths ixs))"
  using assms
proof (induction ixs)
  case Nil
  then show ?case by simp
next
  case (Cons ix ixs)
  have "set (service_index_paths ix) \<inter> set (concat (map service_index_paths ixs)) = {}"
  proof (rule ccontr)
    assume "\<not> ?thesis"
    then obtain x ix' where "x \<in> set (service_index_paths ix)" "ix' \<in> set ixs"
      "x \<in> set (service_index_paths ix')"
      by auto
    then have "fst ix = fst ix'"
      by (blast dest: service_index_paths_below below_disjoint)
    with \<open>ix' \<in> set ixs\<close> Cons.prems show False by (auto simp: siblings_distinct_def)
  qed
  with Cons show ?case
    by (simp add: distinct_service_index_paths siblings_distinct_def)
qed

lemma root_not_below: "''/'' \<notin> below PATH_BASE i"
  by (auto simp: below_def PATH_BASE_def)

lemma built_paths_distinct:
  assumes "app_built a ixs" "siblings_distinct ixs"
  shows "distinct (Application_get_path a # node_paths a)"
proof -
  have "''/'' \<notin> set (concat (map service_index_paths ixs))"
    using root_not_below by (auto dest: service_index_paths_below)
  with assms show ?thesis
    by (simp add: node_paths_built distinct_services_index_paths) (simp add: app_built_def)
qed

lemma Application_init_built:
  "app_built (fst (Application_init kwargs)) [(0, [(0, []), (1, [])])]"
  by (simp add: Application_init_def CurrentTimeService_init_def CurrentTimeCharacteristic_init_def
      LocalTimeInformationCharacteristic_init_def Characteristic_init_def Service_init_def
      add_service_def add_characteristic_def app_built_def service_built_def chrc_built_def
      Application_get_path_def Service_get_path_def get_characteristics_def
      Characteristic_get_path_def get_descriptors_def Characteristic.defs
      CurrentTimeCharacteristic.defs Let_def split: prod.splits)

lemma call_path: "call env obj m = (r, obj', effs) \<Longrightarrow> chrc_get_path obj' = chrc_get_path obj"
  by (cases "(env, obj, m)" rule: call.cases)
    (auto simp: outcome_def CurrentTimeCharacteristic_ReadValue_def Characteristic_WriteValue_def
      CurrentTimeCharacteristic_StartNotify_def CurrentTimeCharacteristic_StopNotify_def
      LocalTimeInformationCharacteristic_ReadValue_def Characteristic_ReadValue_def
      Characteristic_StartNotify_def Characteristic_StopNotify_def
      notify_time_def notify_current_time_def add_descriptor_def Characteristic_get_path_def
      split: prod.splits sum.splits if_splits)

text \<open>
  C9. The root path and the paths of the services, characteristics and descriptors of
  the tree that \<open>Application\<close> builds are pairwise different, whatever the keyword
  arguments; so are those of any tree put together with the constructors in which no
  two children of one parent have the same index. A constructor computes the path
  from the parent's path and the index alone, and no call on a characteristic or a
  descriptor and no \<open>add_characteristic\<close> or \<open>add_service\<close> changes the path of
  the object it is applied to.
\<close>

theorem object_paths_distinct_and_stable:
  "distinct (Application_get_path (fst (Application_init kwargs)) #
             node_paths (fst (Application_init kwargs))) \<and>
   (app_built a ixs \<and> siblings_distinct ixs \<longrightarrow>
      distinct (Application_get_path a # node_paths a)) \<and>
   Service_get_path (Service_init i uuid primary) = PATH_BASE @ str_int i \<and>
   Characteristic_get_path (Characteristic_init j uuid' flags s) =
     Service_get_path s @ ''/char'' @ str_int j \<and>
   Descriptor_get_path (Descriptor_init k uuid'' flags' c) =
     Characteristic_get_path c @ ''/desc'' @ str_int k \<and>
   (call env obj m = (r, obj', effs) \<longrightarrow> chrc_get_path obj' = chrc_get_path obj) \<and>
   (desc_call d dm = (r', d', effs') \<longrightarrow> Descriptor_get_path d' = Descriptor_get_path d) \<and>
   Service_get_path (add_characteristic s obj) = Service_get_path s \<and>
   Application_get_path (add_service a s) = Application_get_path a"
proof -
  have "siblings_distinct [(0, [(0, []), (1, [])])]"
    by (simp add: siblings_distinct_def)
  then have 1: "distinct (Application_get_path (fst (Application_init kwargs)) #
                          node_paths (fst (Application_init kwargs)))"
    using Application_init_built by (rule built_paths_distinct [rotated])
  have 2: "app_built a ixs \<and> siblings_distinct ixs \<longrightarrow>
           distinct (Application_get_path a # node_paths a)"
    using built_paths_distinct by blast
  have 3: "desc_call d dm = (r', d', effs') \<longrightarrow> Descriptor_get_path d' = Descriptor_get_path d"
    by (cases dm) (auto simp: Descriptor_ReadValue_def Descriptor_WriteValue_def)
  have 4: "call env obj m = (r, obj', effs) \<longrightarrow> chrc_get_path obj' = chrc_get_path obj"
    using call_path by blast
  show ?thesis
    using 1 2 3 4
    by (simp add: Service_get_path_def Service_init_def Characteristic_get_path_def
        Characteristic_init_def Descriptor_get_path_def Descriptor_init_def
        add_characteristic_def add_service_def Application_get_path_def)
qed

theorem object_paths_distinct_and_stable_witness:
  "Application_get_path (fst (Application_init [(''notify_period'', Some 60)])) #
   node_paths (fst (Application_init [(''notify_period'', Some 60)])) =
     [''/'', ''/org/bluez/example/service0'', ''/org/bluez/example/service0/char0'',
      ''/org/bluez/example/service0/char1''] \<and>
   distinct (Application_get_path (fst (Application_init [(''notify_period'', Some 60)])) #
             node_paths (fst (Application_init [(''notify_period'', Some 60)])))"
proof -
  have b: "app_built (fst (Application_init [(''notify_period'', Some 60)]))
             [(0, [(0, []), (1, [])])] \<and> siblings_distinct [(0, [(0, []), (1, [])])]"
    by (simp add: Application_init_built siblings_distinct_def)
  have "Application_get_path (fst (Application_init [(''notify_period'', Some 60)])) #
        node_paths (fst (Application_init [(''notify_period'', Some 60)])) =
          [''/'', ''/org/bluez/example/service0'', ''/org/bluez/example/service0/char0'',
           ''/org/bluez/example/service0/char1'']"
    by (simp add: Application_init_def CurrentTimeService_init_def
        CurrentTimeCharacteristic_init_def LocalTimeInformationCharacteristic_init_def
        Characteristic_init_def Service_init_def add_service_def add_characteristic_def
        node_paths_def service_paths_getters chrc_paths_getters Service_get_path_def
        get_characteristics_def Characteristic_get_path_def get_descriptors_def
        Characteristic.defs CurrentTimeCharacteristic.defs Application_get_path_def
        PATH_BASE_def str_int_0 str_int_1 getitem_def Let_def)
  moreover have "distinct (Application_get_path (fst (Application_init [(''notify_period'', Some 60)])) #
             node_paths (fst (Application_init [(''notify_period'', Some 60)])))"
    using object_paths_distinct_and_stable
      [of "[(''notify_period'', Some 60)]"
          "fst (Application_init [(''notify_period'', Some 60)])" "[(0, [(0, []), (1, [])])]",
       THEN conjunct2, THEN conjunct1] b
    by (rule mp)
  ultimately show ?thesis by (rule conjI)
qed

subsection \<open>The Local Time Information payload\<close>

lemma quarter_hours_bound:
  assumes "- 256 < quarter_hours x" "quarter_hours x < 256"
  shows "\<bar>x\<bar> < 230400"
proof -
  have "\<bar>quarter_hours x\<bar> = \<bar>x\<bar> div 900"
    by (simp add: quarter_hours_def abs_mult sgn_if)
  with assms have "\<bar>x\<bar> div 900 < 256" by simp
  moreover have "\<bar>x\<bar> = 900 * (\<bar>x\<bar> div 900) + \<bar>x\<bar> mod 900" by simp
  moreover have "\<bar>x\<bar> mod 900 < 900" by simp
  ultimately show ?thesis by linarith
qed

lemma timedelta_quarter_hours:
  assumes "\<bar>x\<bar> < 230400"
  shows "\<exists>f. timedelta_truediv (x * 1000000) (timedelta_minutes 15) = Inr f \<and>
             int_of_float f = quarter_hours x"
proof -
  have "\<bar>x * 1000000\<bar> < 2 ^ 53" using assms by (simp add: abs_mult)
  from int_truediv_trunc [of 900000000, OF _ this]
  obtain f where f: "int_truediv (x * 1000000) 900000000 = Inr f"
    "int_of_float f = sgn (x * 1000000) * sgn 900000000 * (\<bar>x * 1000000\<bar> div \<bar>900000000\<bar>)"
    by auto
  have "\<bar>x * 1000000\<bar> div \<bar>900000000\<bar> = (\<bar>x\<bar> * 1000000) div (900 * 1000000)"
    by (simp add: abs_mult)
  also have "\<dots> = \<bar>x\<bar> div 900"
    by (rule div_mult_mult2) simp
  finally have "int_of_float f = quarter_hours x"
    using f(2) by (simp add: quarter_hours_def sgn_mult)
  with f(1) show ?thesis
    by (simp add: timedelta_truediv_def timedelta_minutes_def)
qed

lemma local_time_information_bytes_quarters:
  assumes "- 128 \<le> quarter_hours (- timezone env)"
    and "quarter_hours (- timezone env) \<le> 127"
    and "0 \<le> quarter_hours (- altzone env - (- timezone env))"
    and "quarter_hours (- altzone env - (- timezone env)) \<le> 255"
  shows "local_time_information_bytes env =
           (Inr [word_of_int (quarter_hours (- timezone env)),
                 word_of_int (quarter_hours (- altzone env - (- timezone env)))],
            [Log DEBUG ''LTI: TZ offset =  (); DST offset =  ()''])"
proof -
  define a where "a = quarter_hours (- timezone env)"
  define d where "d = quarter_hours (- altzone env - (- timezone env))"
  note r = assms [folded a_def d_def]
  have tz: "timedelta_seconds (- timezone env) = (- timezone env) * 1000000"
    by (simp only: timedelta_seconds_def)
  have dst: "timedelta_seconds (- altzone env) - timedelta_seconds (- timezone env) =
             (- altzone env - (- timezone env)) * 1000000"
    by (simp only: timedelta_seconds_def left_diff_distrib)
  obtain x where x:
    "timedelta_truediv (timedelta_seconds (- timezone env)) (timedelta_minutes 15) = Inr x"
    "int_of_float x = a"
  proof -
    have "\<bar>- timezone env\<bar> < 230400"
      using r(1,2) unfolding a_def by (intro quarter_hours_bound) simp_all
    from timedelta_quarter_hours [OF this] that show ?thesis
      unfolding a_def tz by blast
  qed
  obtain y where y:
    "timedelta_truediv (timedelta_seconds (- altzone env) - timedelta_seconds (- timezone env))
       (timedelta_minutes 15) = Inr y"
    "int_of_float y = d"
  proof -
    have "\<bar>- altzone env - (- timezone env)\<bar> < 230400"
      using r(3,4) unfolding d_def by (intro quarter_hours_bound) simp_all
    from timedelta_quarter_hours [OF this] that show ?thesis
      unfolding d_def dst by blast
  qed
  have "0 \<le> a mod 256" "a mod 256 < 256" by simp_all
  then have b0: "Byte (a mod 256) = Inr (word_of_int (a mod 256))"
    by (simp add: Byte_def)
  have w: "(word_of_int (a mod 256) :: byte) = word_of_int a"
    by (simp add: word_eq_iff_unsigned [where ?'a = int] unsigned_of_int take_bit_eq_mod)
  have b1: "Byte d = Inr (word_of_int d)"
    using r(3,4) by (simp add: Byte_def)
  have tb: "to_bytes_little a (Suc 0) True = Inr [a mod 256]"
    using r(1,2) by (simp add: to_bytes_little_def)
  have "local_time_information_bytes env =
          (Inr [word_of_int a, word_of_int d], [Log DEBUG ''LTI: TZ offset =  (); DST offset =  ()''])"
    unfolding local_time_information_bytes_def Let_def x(1) y(1)
    by (simp add: x(2) y(2) bind_err_def tb index_list_def b0 b1 w)
  then show ?thesis by (simp only: a_def d_def)
qed

text \<open>
  C3. With the key \<open>device\<close> in the options,
  \<open>LocalTimeInformationCharacteristic.ReadValue\<close> returns two bytes whenever both
  fields fit: the first is the standard offset from UTC (the negated \<open>time.timezone\<close>)
  in quarter hours, as a signed byte; the second is the offset of the daylight-saving
  zone (the negated \<open>time.altzone\<close>) minus the standard offset in quarter hours, as an
  unsigned byte, whether daylight-saving time is in force or not.
\<close>

theorem ReadValue_local_time_information:
  assumes "- 128 \<le> quarter_hours (- timezone env)"
    and "quarter_hours (- timezone env) \<le> 127"
    and "0 \<le> quarter_hours (- altzone env - (- timezone env))"
    and "quarter_hours (- altzone env - (- timezone env)) \<le> 255"
    and "getitem options ''device'' = Inr device"
  shows "fst (LocalTimeInformationCharacteristic_ReadValue env self options) =
           Inr [word_of_int (quarter_hours (- timezone env)),
                word_of_int (quarter_hours (- altzone env - (- timezone env)))] \<and>
         sint (word_of_int (quarter_hours (- timezone env)) :: byte) =
           quarter_hours (- timezone env) \<and>
         uint (word_of_int (quarter_hours (- altzone env - (- timezone env))) :: byte) =
           quarter_hours (- altzone env - (- timezone env))"
proof -
  have "sint (word_of_int (quarter_hours (- timezone env)) :: byte) =
        quarter_hours (- timezone env)"
    using assms(1,2) by (simp add: int_word_sint)
  moreover have "uint (word_of_int (quarter_hours (- altzone env - (- timezone env))) :: byte) =
        quarter_hours (- altzone env - (- timezone env))"
    using assms(3,4) by (simp add: uint_word_of_int take_bit_eq_mod)
  ultimately show ?thesis
    using assms(5)
    by (simp add: LocalTimeInformationCharacteristic_ReadValue_def
        local_time_information_bytes_quarters [OF assms(1-4)])
qed

theorem ReadValue_local_time_information_witness:
  "fst (LocalTimeInformationCharacteristic_ReadValue
     \<lparr>now = \<lparr>year = 2024, month = 3, day = 15, hour = 14, minute = 30, second = 45,
              microsecond = 500000\<rparr>,
      timezone = - 7200, altzone = - 7200, tm_isdst = False\<rparr>
     (LocalTimeInformationCharacteristic_init 1 (Service_init 0 ''1805'' True) [])
     [(''device'', ObjectPath ''/org/bluez/hci0/dev_00_11_22_33_44_55'')]) = Inr [8, 0] \<and>
   fst (LocalTimeInformationCharacteristic_ReadValue
     \<lparr>now = \<lparr>year = 2024, month = 7, day = 15, hour = 14, minute = 30, second = 45,
              microsecond = 500000\<rparr>,
      timezone = - 7200, altzone = - 10800, tm_isdst = True\<rparr>
     (LocalTimeInformationCharacteristic_init 1 (Service_init 0 ''1805'' True) [])
     [(''device'', ObjectPath ''/org/bluez/hci0/dev_00_11_22_33_44_55'')]) = Inr [8, 4]"
  using ReadValue_local_time_information
    [of "\<lparr>now = \<lparr>year = 2024, month = 3, day = 15, hour = 14, minute = 30, second = 45,
                  microsecond = 500000\<rparr>,
          timezone = - 7200, altzone = - 7200, tm_isdst = False\<rparr>"
        "[(''device'', ObjectPath ''/org/bluez/hci0/dev_00_11_22_33_44_55'')]"
        "ObjectPath ''/org/bluez/hci0/dev_00_11_22_33_44_55''"
        "LocalTimeInformationCharacteristic_init 1 (Service_init 0 ''1805'' True) []"]
    ReadValue_local_time_information
    [of "\<lparr>now = \<lparr>year = 2024, month = 7, day = 15, hour = 14, minute = 30, second = 45,
                  microsecond = 500000\<rparr>,
          timezone = - 7200, altzone = - 10800, tm_isdst = True\<rparr>"
        "[(''device'', ObjectPath ''/org/bluez/hci0/dev_00_11_22_33_44_55'')]"
        "ObjectPath ''/org/bluez/hci0/dev_00_11_22_33_44_55''"
        "LocalTimeInformationCharacteristic_init 1 (Service_init 0 ''1805'' True) []"]
  by (simp add: getitem_def quarter_hours_def)

lemma winter_payload:
  "local_time_information_bytes
     \<lparr>now = \<lparr>year = 2024, month = 1, day = 15, hour = 14, minute = 30, second = 45,
              microsecond = 500000\<rparr>,
      timezone = - 7200, altzone = - 10800, tm_isdst = False\<rparr> =
   (Inr [8, 4], [Log DEBUG ''LTI: TZ offset =  (); DST offset =  ()''])"
  using local_time_information_bytes_quarters
    [of "\<lparr>now = \<lparr>year = 2024, month = 1, day = 15, hour = 14, minute = 30, second = 45,
                  microsecond = 500000\<rparr>,
          timezone = - 7200, altzone = - 10800, tm_isdst = False\<rparr>"]
  by (simp add: quarter_hours_def)

text \<open>
  C3, as it was worded. In a zone at UTC+2:00 whose daylight-saving time adds an
  hour, while daylight-saving time is not in force, the total current offset is the
  base offset and the specification's second field is 0; the call returns 8 and 4,
  not 8 and 0.
\<close>

theorem dst_byte_ignores_dst_state:
  "spec_total_current_offset
     \<lparr>now = \<lparr>year = 2024, month = 1, day = 15, hour = 14, minute = 30, second = 45,
              microsecond = 500000\<rparr>,
      timezone = - 7200, altzone = - 10800, tm_isdst = False\<rparr> = 7200 \<and>
   spec_dst_offset_15min
     \<lparr>now = \<lparr>year = 2024, month = 1, day = 15, hour = 14, minute = 30, second = 45,
              microsecond = 500000\<rparr>,
      timezone = - 7200, altzone = - 10800, tm_isdst = False\<rparr> = 0 \<and>
   fst (LocalTimeInformationCharacteristic_ReadValue
     \<lparr>now = \<lparr>year = 2024, month = 1, day = 15, hour = 14, minute = 30, second = 45,
              microsecond = 500000\<rparr>,
      timezone = - 7200, altzone = - 10800, tm_isdst = False\<rparr>
     (LocalTimeInformationCharacteristic_init 1 (Service_init 0 ''1805'' True) [])
     [(''device'', ObjectPath ''/org/bluez/hci0/dev_00_11_22_33_44_55'')]) = Inr [8, 4] \<and>
   fst (LocalTimeInformationCharacteristic_ReadValue
     \<lparr>now = \<lparr>year = 2024, month = 1, day = 15, hour = 14, minute = 30, second = 45,
              microsecond = 500000\<rparr>,
      timezone = - 7200, altzone = - 10800, tm_isdst = False\<rparr>
     (LocalTimeInformationCharacteristic_init 1 (Service_init 0 ''1805'' True) [])
     [(''device'', ObjectPath ''/org/bluez/hci0/dev_00_11_22_33_44_55'')]) \<noteq> Inr [8, 0]"
  by (simp add: LocalTimeInformationCharacteristic_ReadValue_def winter_payload getitem_def
      spec_total_current_offset_def spec_dst_offset_15min_def quarter_hours_def)

end
